theory Spec2Isabelle
  imports Main "HOL-Library.Char_ord" "HOL-Library.List_Lexorder"
begin

section \<open>JavaScript strings and the values of a request body\<close>

text \<open>
  A JavaScript string is modelled as a \<^typ>\<open>string\<close>: one \<^typ>\<open>char\<close> per UTF-16 code
  unit, restricted to the code units 0..255. Within that range the white space of
  \<open>String.prototype.trim\<close> and of the regular-expression class \<open>\s\<close> is TAB, LF, VT, FF,
  CR, SPACE and NBSP, and the line terminators excluded by \<open>.\<close> are LF and CR.
\<close>

definition is_space :: "char \<Rightarrow> bool" where
  "is_space c = (c \<in> set [CHR 0x09, CHR 0x0A, CHR 0x0B, CHR 0x0C, CHR 0x0D, CHR 0x20, CHR 0xA0])"

definition is_digit :: "char \<Rightarrow> bool" where
  "is_digit c = (c \<in> set ''0123456789'')"

definition not_colon :: "char \<Rightarrow> bool" where
  "not_colon c = (c \<noteq> CHR '':'')"

definition not_line_terminator :: "char \<Rightarrow> bool" where
  "not_line_terminator c = (c \<noteq> CHR 0x0A \<and> c \<noteq> CHR 0x0D)"

definition trim :: "string \<Rightarrow> string" where
  "trim s = rev (dropWhile is_space (rev (dropWhile is_space s)))"

definition startsWith :: "string \<Rightarrow> string \<Rightarrow> bool" where
  "startsWith s p = (take (length p) s = p)"

definition endsWith :: "string \<Rightarrow> string \<Rightarrow> bool" where
  "endsWith s p = (length p \<le> length s \<and> drop (length s - length p) s = p)"

fun str_includes :: "string \<Rightarrow> string \<Rightarrow> bool" where
  "str_includes [] p = (p = [])"
| "str_includes (c # cs) p = (startsWith (c # cs) p \<or> str_includes cs p)"

text \<open>\<open>s.split(c)\<close> for a one-character separator: the pieces between separators; always at
  least one piece.\<close>

fun split_on :: "char \<Rightarrow> string \<Rightarrow> string list" where
  "split_on sep [] = [[]]"
| "split_on sep (c # cs) =
     (if c = sep then [] # split_on sep cs
      else (case split_on sep cs of [] \<Rightarrow> [[c]] | l # ls \<Rightarrow> (c # l) # ls))"

definition split_lines :: "string \<Rightarrow> string list" where
  "split_lines s = split_on (CHR 0x0A) s"

text \<open>
  \<open>path.basename\<close> of Node.js on POSIX (the service runs in a Linux container): trailing
  slashes are ignored and the last remaining segment is returned.
\<close>

definition basename :: "string \<Rightarrow> string" where
  "basename p =
     rev (takeWhile (\<lambda>c. c \<noteq> CHR ''/'') (dropWhile (\<lambda>c. c = CHR ''/'') (rev p)))"

text \<open>
  The values a JSON request body can hold in a field, as far as \<open>typeof\<close> and truthiness
  tell them apart. Arrays and objects are always truthy and are not strings.
\<close>

datatype js_value =
    JSUndefined
  | JSNull
  | JSBoolean bool
  | JSNumber int
  | JSString string
  | JSObject

fun truthy :: "js_value \<Rightarrow> bool" where
  "truthy JSUndefined = False"
| "truthy JSNull = False"
| "truthy (JSBoolean b) = b"
| "truthy (JSNumber n) = (n \<noteq> 0)"
| "truthy (JSString s) = (s \<noteq> [])"
| "truthy JSObject = True"

fun is_string :: "js_value \<Rightarrow> bool" where
  "is_string (JSString s) = True"
| "is_string v = False"

datatype js_error = TypeError

section \<open>Regular expressions of the error parser\<close>

text \<open>
  The fragment of JavaScript regular expressions that \<open>parseErrors\<close> uses: literal text, a
  greedy \<open>+\<close> or \<open>*\<close> over a character class, a greedy optional non-capturing group,
  sequence, alternation and capturing groups. \<open>rx r s\<close> lists, in the order a backtracking
  matcher tries them, the ways \<open>r\<close> can match at the start of \<open>s\<close>: the captured
  texts and the input that remains.
\<close>

datatype regex =
    Lit string
  | Plus "char \<Rightarrow> bool"
  | Star "char \<Rightarrow> bool"
  | Opt regex
  | Seq regex regex
  | Alt regex regex
  | Cap regex

text \<open>The inputs left after a greedy run over a class: longest run first, empty run last.\<close>

fun greedy :: "(char \<Rightarrow> bool) \<Rightarrow> string \<Rightarrow> string list" where
  "greedy p [] = [[]]"
| "greedy p (c # cs) = (if p c then greedy p cs @ [c # cs] else [c # cs])"

fun rx :: "regex \<Rightarrow> string \<Rightarrow> (string list \<times> string) list" where
  "rx (Lit l) s = (if startsWith s l then [([], drop (length l) s)] else [])"
| "rx (Plus p) s = map (\<lambda>t. ([], t)) (butlast (greedy p s))"
| "rx (Star p) s = map (\<lambda>t. ([], t)) (greedy p s)"
| "rx (Opt r) s = rx r s @ [([], s)]"
| "rx (Seq a b) s =
     concat (map (\<lambda>(c1, s1). map (\<lambda>(c2, s2). (c1 @ c2, s2)) (rx b s1)) (rx a s))"
| "rx (Alt a b) s = rx a s @ rx b s"
| "rx (Cap r) s = map (\<lambda>(c, t). (take (length s - length t) s # c, t)) (rx r s)"

fun seqs :: "regex list \<Rightarrow> regex" where
  "seqs [] = Lit []"
| "seqs [r] = r"
| "seqs (r # rs) = Seq r (seqs rs)"

text \<open>
  An unanchored match: the leftmost start position at which the expression matches, with
  the first way the backtracking order finds there. The result is the text in front of the
  match, the captures, and the text after the match.
\<close>

fun search :: "regex \<Rightarrow> string \<Rightarrow> string \<Rightarrow> (string \<times> string list \<times> string) option" where
  "search r pre s =
     (case rx r s of
        (caps, rest) # _ \<Rightarrow> Some (pre, caps, rest)
      | [] \<Rightarrow> (case s of [] \<Rightarrow> None | c # cs \<Rightarrow> search r (pre @ [c]) cs))"

text \<open>\<open>s.replace(re, '')\<close> for an expression without the \<open>g\<close> flag: the first match is removed.\<close>

definition replace_first :: "regex \<Rightarrow> string \<Rightarrow> string" where
  "replace_first r s =
     (case search r [] s of None \<Rightarrow> s | Some (pre, caps, rest) \<Rightarrow> pre @ rest)"

text \<open>\<open>/\[ERROR\]\s+([^:]+):\[(\d+)(?:,\d+)?\]\s+(.*)/\<close>\<close>

definition fileErrorRe :: regex where
  "fileErrorRe =
     seqs [Lit ''[ERROR]'', Plus is_space, Cap (Plus not_colon), Lit '':['',
           Cap (Plus is_digit), Opt (Seq (Lit '','') (Plus is_digit)), Lit '']'',
           Plus is_space, Cap (Star not_line_terminator)]"

text \<open>\<open>/\[ERROR\]\s+/\<close>\<close>

definition errorTagRe :: regex where
  "errorTagRe = Seq (Lit ''[ERROR]'') (Plus is_space)"

text \<open>\<open>/\[ERROR\]\s+|\[FATAL\]\s+/\<close>\<close>

definition errorOrFatalTagRe :: regex where
  "errorOrFatalTagRe =
     Alt (Seq (Lit ''[ERROR]'') (Plus is_space)) (Seq (Lit ''[FATAL]'') (Plus is_space))"

text \<open>
  The number of capturing groups of an expression, and the expressions in which every way
  of matching fills all of them (no group inside an optional part, the same number in both
  branches of an alternation).
\<close>

fun groups :: "regex \<Rightarrow> nat" where
  "groups (Lit l) = 0"
| "groups (Plus p) = 0"
| "groups (Star p) = 0"
| "groups (Opt r) = groups r"
| "groups (Seq a b) = groups a + groups b"
| "groups (Alt a b) = groups a"
| "groups (Cap r) = Suc (groups r)"

fun all_groups_filled :: "regex \<Rightarrow> bool" where
  "all_groups_filled (Lit l) = True"
| "all_groups_filled (Plus p) = True"
| "all_groups_filled (Star p) = True"
| "all_groups_filled (Opt r) = (all_groups_filled r \<and> groups r = 0)"
| "all_groups_filled (Seq a b) = (all_groups_filled a \<and> all_groups_filled b)"
| "all_groups_filled (Alt a b) = (all_groups_filled a \<and> all_groups_filled b \<and> groups a = groups b)"
| "all_groups_filled (Cap r) = all_groups_filled r"

text \<open>\<open>line.match(...)\<close> destructured into \<open>[_, filePath, lineNumber, errorMsg]\<close>.\<close>

definition fileErrorMatch :: "string \<Rightarrow> (string \<times> string \<times> string) option" where
  "fileErrorMatch line =
     (case search fileErrorRe [] line of
        Some (pre, [filePath, lineNumber, errorMsg], rest) \<Rightarrow>
          Some (filePath, lineNumber, errorMsg)
      | _ \<Rightarrow> None)"

section \<open>The error parser\<close>

text \<open>
  \<open>parseErrors\<close> of the fix route. Its result holds \<open>fileErrors\<close>, a plain object used as
  a dictionary from file name to messages, and the list \<open>generalErrors\<close>.

  \<open>fileErrors\<close> is created by the literal \<open>{}\<close>, so a lookup of a key that is not an own
  property falls through to \<open>Object.prototype\<close>. For the names below the lookup yields a
  truthy value that has no \<open>push\<close>: the test \<open>!result.fileErrors[fileName]\<close> is false,
  no list is created, and the call of \<open>push\<close> throws a \<open>TypeError\<close>.
\<close>

record parse_result =
  fileErrors :: "string \<rightharpoonup> string list"
  generalErrors :: "string list"

definition empty_result :: parse_result where
  "empty_result = \<lparr>fileErrors = Map.empty, generalErrors = []\<rparr>"

definition object_prototype_keys :: "string list" where
  "object_prototype_keys =
     [''constructor'', ''__defineGetter__'', ''__defineSetter__'', ''hasOwnProperty'',
      ''__lookupGetter__'', ''__lookupSetter__'', ''isPrototypeOf'',
      ''propertyIsEnumerable'', ''toString'', ''valueOf'', ''__proto__'',
      ''toLocaleString'']"

text \<open>
  \<open>if (!result.fileErrors[k]) result.fileErrors[k] = []; result.fileErrors[k].push(msg)\<close>
\<close>

definition push_file_error :: "parse_result \<Rightarrow> string \<Rightarrow> string \<Rightarrow> js_error + parse_result" where
  "push_file_error r k msg =
     (case fileErrors r k of
        Some msgs \<Rightarrow> Inr (r\<lparr>fileErrors := (fileErrors r)(k \<mapsto> msgs @ [msg])\<rparr>)
      | None \<Rightarrow>
          if k \<in> set object_prototype_keys then Inl TypeError
          else Inr (r\<lparr>fileErrors := (fileErrors r)(k \<mapsto> [msg])\<rparr>))"

text \<open>The body of the loop over \<open>errorLines\<close>, for one element of the array.\<close>

definition parse_line :: "parse_result \<Rightarrow> string \<Rightarrow> js_error + parse_result" where
  "parse_line r raw =
     (let line = trim raw in
      if line = [] then Inr r
      else
        case fileErrorMatch line of
          Some (filePath, lineNumber, errorMsg) \<Rightarrow>
            push_file_error r (basename filePath) (''Line '' @ lineNumber @ '': '' @ errorMsg)
        | None \<Rightarrow>
            if str_includes line ''pom.xml'' \<or> str_includes line ''POM'' \<or> str_includes line ''maven''
            then push_file_error r ''pom.xml'' (replace_first errorTagRe line)
            else if str_includes line ''[ERROR]'' \<or> str_includes line ''[FATAL]''
            then Inr (r\<lparr>generalErrors := generalErrors r @ [replace_first errorOrFatalTagRe line]\<rparr>)
            else Inr r)"

fun parse_lines :: "parse_result \<Rightarrow> string list \<Rightarrow> js_error + parse_result" where
  "parse_lines r [] = Inr r"
| "parse_lines r (l # ls) =
     (case parse_line r l of Inl e \<Rightarrow> Inl e | Inr r' \<Rightarrow> parse_lines r' ls)"

definition parseErrors :: "js_value \<Rightarrow> js_error + parse_result" where
  "parseErrors buildErrors =
     (case buildErrors of
        JSString s \<Rightarrow> parse_lines empty_result (split_lines s)
      | _ \<Rightarrow> Inr empty_result)"

section \<open>Paths and the file system\<close>

text \<open>
  \<open>path.resolve\<close>, \<open>path.join\<close> and \<open>path.dirname\<close> of Node.js on POSIX. \<open>resolve\<close> goes
  through its arguments from the right until the path is absolute, falling back on the
  working directory of the process (an absolute path), and normalises the result: empty
  segments and \<open>.\<close> disappear and \<open>..\<close> removes the segment in front of it.
\<close>

fun normalize_segments :: "string list \<Rightarrow> string list \<Rightarrow> string list" where
  "normalize_segments acc [] = rev acc"
| "normalize_segments acc (seg # segs) =
     (if seg = [] \<or> seg = ''.'' then normalize_segments acc segs
      else if seg = ''..'' then normalize_segments (tl acc) segs
      else normalize_segments (seg # acc) segs)"

definition join_segments :: "string list \<Rightarrow> string" where
  "join_segments segs =
     (if segs = [] then ''/'' else concat (map (\<lambda>seg. CHR ''/'' # seg) segs))"

fun resolve_raw :: "string list \<Rightarrow> string" where
  "resolve_raw [] = []"
| "resolve_raw (a # as) =
     (let r = resolve_raw as in
      if startsWith r ''/'' then r else if a = [] then r else a @ ''/'' @ r)"

definition resolve :: "string \<Rightarrow> string list \<Rightarrow> string" where
  "resolve cwd args =
     join_segments (normalize_segments [] (split_on (CHR ''/'') (resolve_raw (cwd # args))))"

text \<open>\<open>path.join(dir, name)\<close> for an absolute \<open>dir\<close>.\<close>

definition path_join :: "string \<Rightarrow> string \<Rightarrow> string" where
  "path_join dir name =
     join_segments (normalize_segments [] (split_on (CHR ''/'') (dir @ ''/'' @ name)))"

definition dirname :: "string \<Rightarrow> string" where
  "dirname p = join_segments (butlast (normalize_segments [] (split_on (CHR ''/'') p)))"

text \<open>
  The file system as the routes see it: the text of every regular file, the directories,
  and the paths at which the operating system refuses an access, so that
  \<open>mkdirSync\<close>, \<open>writeFileSync\<close> and \<open>readFileSync\<close> throw there.
\<close>

record filesystem =
  file_text :: "string \<rightharpoonup> string"
  directories :: "string set"
  denied :: "string set"

definition existsSync :: "filesystem \<Rightarrow> string \<Rightarrow> bool" where
  "existsSync fs p = (file_text fs p \<noteq> None \<or> p \<in> directories fs)"

text \<open>The directory itself and every directory above it, for \<open>mkdirSync(_, {recursive: true})\<close>.\<close>

fun dir_chain :: "string list \<Rightarrow> string list" where
  "dir_chain [] = [''/'']"
| "dir_chain (seg # upper) = join_segments (rev (seg # upper)) # dir_chain upper"

definition ancestors :: "string \<Rightarrow> string list" where
  "ancestors d = dir_chain (rev (normalize_segments [] (split_on (CHR ''/'') d)))"

text \<open>
  \<open>mkdirSync(d, {recursive: true})\<close> throws when \<open>d\<close> or a path above it is a regular
  file, and when the operating system refuses to create one of the directories that are
  missing.
\<close>

definition mkdir_throws :: "filesystem \<Rightarrow> string \<Rightarrow> bool" where
  "mkdir_throws fs d =
     list_ex (\<lambda>p. file_text fs p \<noteq> None \<or> (p \<notin> directories fs \<and> p \<in> denied fs))
       (ancestors d)"

definition mkdir_recursive :: "filesystem \<Rightarrow> string \<Rightarrow> filesystem" where
  "mkdir_recursive fs d = fs\<lparr>directories := directories fs \<union> set (ancestors d)\<rparr>"

section \<open>The fix route\<close>

text \<open>
  \<open>writeFixedFiles\<close>: every entry is resolved against the plugin directory and written.
  An exception of \<open>mkdirSync\<close> or \<open>writeFileSync\<close> ends the loop and gives \<open>false\<close>.
  \<open>writeFileSync\<close> throws when the path is a directory, when the path above it is not a
  directory (it may exist as a regular file, and is then left as it is), and when the
  operating system refuses the access.
\<close>

fun write_entries :: "string \<Rightarrow> string \<Rightarrow> (string \<times> string) list \<Rightarrow> filesystem \<Rightarrow> bool \<times> filesystem" where
  "write_entries cwd pluginDir [] fs = (True, fs)"
| "write_entries cwd pluginDir ((filename, content) # rest) fs =
     (let filePath = resolve cwd [pluginDir, filename];
          dirName = dirname filePath
      in if \<not> existsSync fs dirName \<and> mkdir_throws fs dirName then (False, fs)
         else
           let fs1 = (if existsSync fs dirName then fs else mkdir_recursive fs dirName)
           in if dirName \<notin> directories fs1 \<or> filePath \<in> denied fs1 \<or>
                 filePath \<in> directories fs1
              then (False, fs1)
              else write_entries cwd pluginDir rest
                     (fs1\<lparr>file_text := (file_text fs1)(filePath \<mapsto> content)\<rparr>))"

definition writeFixedFiles :: "string \<Rightarrow> (string \<times> string) list \<Rightarrow> string \<Rightarrow> filesystem \<Rightarrow> bool \<times> filesystem" where
  "writeFixedFiles cwd fixedFiles pluginDir fs = write_entries cwd pluginDir fixedFiles fs"

text \<open>
  The generative model is outside the repository. A call is identified by the position of
  the file in the request and by the prompt, of which the model sees the file name, the
  file's text and the error lists placed in the template; \<open>None\<close> stands for a call that
  throws, which the route catches and logs.
\<close>

datatype prompt =
    JavaPrompt string string "string list" "string list"
  | PomPrompt string "string list" "string list"
  | PluginYmlPrompt string "string list"

type_synonym fixer = "nat \<Rightarrow> prompt \<Rightarrow> string option"

text \<open>\<open>s.indexOf('\n') + 1\<close> and \<open>s.lastIndexOf(p)\<close>.\<close>

definition after_first_newline :: "string \<Rightarrow> nat" where
  "after_first_newline s =
     (if CHR 0x0A \<in> set s then Suc (length (takeWhile (\<lambda>c. c \<noteq> CHR 0x0A) s)) else 0)"

fun lastIndexOf :: "string \<Rightarrow> nat \<Rightarrow> string \<Rightarrow> nat option" where
  "lastIndexOf p i [] = (if p = [] then Some i else None)"
| "lastIndexOf p i (c # cs) =
     (case lastIndexOf p (Suc i) cs of
        Some j \<Rightarrow> Some j
      | None \<Rightarrow> if startsWith (c # cs) p then Some i else None)"

definition slice :: "nat \<Rightarrow> nat \<Rightarrow> string \<Rightarrow> string" where
  "slice a b s = take (b - a) (drop a s)"

text \<open>The clean-up of the model's answer: a surrounding Markdown fence is cut away.\<close>

definition cleanContent :: "string \<Rightarrow> string" where
  "cleanContent fixedContent =
     (let t = trim fixedContent in
      if startsWith t ''```'' \<and> endsWith t ''```'' then
        (case lastIndexOf ''```'' 0 t of
           Some e \<Rightarrow> trim (slice (after_first_newline t) e t)
         | None \<Rightarrow> t)
      else t)"

text \<open>
  The errors of a file as the loop reads them:
  \<open>ensureArray(parsedErrors.fileErrors[path.basename(filename)] || [])\<close>. A value inherited
  from \<open>Object.prototype\<close> is not an array, so \<open>ensureArray\<close> turns it into the empty list.
\<close>

definition errors_of :: "parse_result \<Rightarrow> string \<Rightarrow> string list" where
  "errors_of parsed k = (case fileErrors parsed k of Some msgs \<Rightarrow> msgs | None \<Rightarrow> [])"

text \<open>The choice of the prompt by file type; \<open>None\<close> is the final \<open>else\<close> that skips the file.\<close>

definition prompt_for :: "parse_result \<Rightarrow> string \<Rightarrow> string \<Rightarrow> prompt option" where
  "prompt_for parsed filename content =
     (if endsWith filename ''.java''
      then Some (JavaPrompt filename content (errors_of parsed (basename filename))
                   (generalErrors parsed))
      else if endsWith filename ''pom.xml''
      then Some (PomPrompt content (errors_of parsed ''pom.xml'') (generalErrors parsed))
      else if endsWith filename ''plugin.yml''
      then Some (PluginYmlPrompt content (generalErrors parsed))
      else None)"

text \<open>\<open>fixedFiles[filename] = cleanContent\<close> on an object whose keys keep insertion order.\<close>

fun set_property :: "string \<Rightarrow> string \<Rightarrow> (string \<times> string) list \<Rightarrow> (string \<times> string) list" where
  "set_property k v [] = [(k, v)]"
| "set_property k v ((k', v') # kvs) =
     (if k' = k then (k, v) # kvs else (k', v') # set_property k v kvs)"

text \<open>The loop over \<open>Object.entries(files)\<close>; \<open>i\<close> is the position of the entry.\<close>

fun fix_files :: "fixer \<Rightarrow> parse_result \<Rightarrow> nat \<Rightarrow> (string \<times> string) list \<Rightarrow> (string \<times> string) list \<Rightarrow> (string \<times> string) list" where
  "fix_files model parsed i [] fixedFiles = fixedFiles"
| "fix_files model parsed i ((filename, content) # rest) fixedFiles =
     (if errors_of parsed (basename filename) = [] \<and> \<not> endsWith filename ''pom.xml''
      then fix_files model parsed (Suc i) rest fixedFiles
      else
        case prompt_for parsed filename content of
          None \<Rightarrow> fix_files model parsed (Suc i) rest fixedFiles
        | Some fixPrompt \<Rightarrow>
            (case model i fixPrompt of
               None \<Rightarrow> fix_files model parsed (Suc i) rest fixedFiles
             | Some fixedContent \<Rightarrow>
                 fix_files model parsed (Suc i) rest
                   (set_property filename (cleanContent fixedContent) fixedFiles)))"

text \<open>
  The files the loop sends to the model: those with errors of their own or named
  \<open>pom.xml\<close>, of one of the three types that have a prompt.
\<close>

definition patchable :: "parse_result \<Rightarrow> string \<Rightarrow> bool" where
  "patchable parsed filename =
     ((errors_of parsed (basename filename) \<noteq> [] \<or> endsWith filename ''pom.xml'') \<and>
      (endsWith filename ''.java'' \<or> endsWith filename ''pom.xml'' \<or>
       endsWith filename ''plugin.yml''))"

text \<open>
  The body of a fix request, with the fields \<open>buildErrors\<close>, \<open>files\<close> and \<open>pluginDir\<close>.
  \<open>req_files\<close> is \<open>None\<close> when the field is absent or falsy, else the entries of the
  object in order.
\<close>

record fix_request =
  req_buildErrors :: js_value
  req_files :: "(string \<times> string) list option"
  req_pluginDir :: js_value

text \<open>
  The answers of the route: 400, 200 with \<open>filesWritten\<close> and \<open>data\<close>, and 500 for an
  exception caught by the outer \<open>try\<close>.
\<close>

datatype fix_reply =
    BadRequest
  | FixSuccess bool "(string \<times> string) list"
  | FixFailed

definition fix_route :: "fixer \<Rightarrow> string \<Rightarrow> fix_request \<Rightarrow> filesystem \<Rightarrow> fix_reply \<times> filesystem" where
  "fix_route model cwd req fs =
     (case req_files req of
        None \<Rightarrow> (BadRequest, fs)
      | Some entries \<Rightarrow>
          if \<not> truthy (req_buildErrors req) then (BadRequest, fs)
          else
            case parseErrors (req_buildErrors req) of
              Inl e \<Rightarrow> (FixFailed, fs)
            | Inr parsedErrors \<Rightarrow>
                let fixedFiles = fix_files model parsedErrors 0 entries []
                in if truthy (req_pluginDir req) \<and> fixedFiles \<noteq> []
                   then
                     (case req_pluginDir req of
                        JSString d \<Rightarrow>
                          (let (writeResult, fs') = writeFixedFiles cwd fixedFiles d fs
                           in (FixSuccess writeResult fixedFiles, fs'))
                      | _ \<Rightarrow> (FixSuccess False fixedFiles, fs))
                   else (FixSuccess False fixedFiles, fs))"

section \<open>The build status route\<close>

datatype status_reply =
    PluginNotFound
  | BuildComplete string
  | BuildInProgress string
  | BuildNotStarted
  | StatusFailed

fun http_status :: "status_reply \<Rightarrow> nat" where
  "http_status PluginNotFound = 404"
| "http_status (BuildComplete buildResult) = 200"
| "http_status (BuildInProgress logFile) = 200"
| "http_status BuildNotStarted = 200"
| "http_status StatusFailed = 500"

fun reply_success :: "status_reply \<Rightarrow> bool" where
  "reply_success PluginNotFound = False"
| "reply_success (BuildComplete buildResult) = True"
| "reply_success (BuildInProgress logFile) = True"
| "reply_success BuildNotStarted = True"
| "reply_success StatusFailed = False"

text \<open>
  \<open>GET /:pluginName\<close> of \<open>routes/buildStatus.ts\<close>. \<open>JSON.parse\<close> is a parameter: it tells
  which texts parse. A text that does not parse, or a \<open>build_result.json\<close> that cannot be
  read, ends in the \<open>catch\<close> with status 500.
\<close>

definition build_status :: "(string \<Rightarrow> bool) \<Rightarrow> string \<Rightarrow> filesystem \<Rightarrow> string \<Rightarrow> status_reply" where
  "build_status parses cwd fs pluginName =
     (let pluginDir = resolve cwd [pluginName] in
      if \<not> existsSync fs pluginDir then PluginNotFound
      else
        let buildResultPath = path_join pluginDir ''build_result.json'' in
        if existsSync fs buildResultPath then
          (case file_text fs buildResultPath of
             None \<Rightarrow> StatusFailed
           | Some txt \<Rightarrow>
               if buildResultPath \<in> denied fs \<or> \<not> parses txt then StatusFailed
               else BuildComplete txt)
        else
          let buildLogPath = path_join pluginDir ''build.log'' in
          if existsSync fs buildLogPath then BuildInProgress buildLogPath
          else BuildNotStarted)"

section \<open>The log streams\<close>

text \<open>
  \<open>activeStreams\<close> maps a plugin name to the set of its open streams. A stream is
  identified by the number of streams created before it; \<open>written\<close> is what has been
  written to it, one entry per event, oldest first. An event is represented by its
  \<open>message\<close>; the time stamp that goes with it is left out.
\<close>

record log_server =
  activeStreams :: "string \<rightharpoonup> nat set"
  written :: "nat \<Rightarrow> string list"
  ended :: "nat set"
  streams_made :: nat

definition no_streams :: log_server where
  "no_streams = \<lparr>activeStreams = Map.empty, written = (\<lambda>s. []), ended = {}, streams_made = 0\<rparr>"

definition broadcastLogMessage :: "string \<Rightarrow> string \<Rightarrow> log_server \<Rightarrow> log_server" where
  "broadcastLogMessage pluginName logMessage st =
     (case activeStreams st pluginName of
        None \<Rightarrow> st
      | Some streams \<Rightarrow>
          if streams \<noteq> {}
          then st\<lparr>written := (\<lambda>s. if s \<in> streams then written st s @ [logMessage]
                                   else written st s)\<rparr>
          else st)"

text \<open>The lines of \<open>build.log\<close> that a new client is sent: those that are not blank.\<close>

definition existing_logs :: "filesystem \<Rightarrow> string \<Rightarrow> string list" where
  "existing_logs fs buildLogPath =
     (if existsSync fs buildLogPath then
        (case file_text fs buildLogPath of
           None \<Rightarrow> []
         | Some txt \<Rightarrow>
             if buildLogPath \<in> denied fs then []
             else filter (\<lambda>line. trim line \<noteq> []) (split_lines txt))
      else [])"

text \<open>
  \<open>GET /:pluginName\<close> of \<open>routes/buildLogs.ts\<close>: \<open>None\<close> is the 404 answer, otherwise
  the new stream is registered, greeted and sent the existing log.
\<close>

definition connect :: "string \<Rightarrow> filesystem \<Rightarrow> string \<Rightarrow> log_server \<Rightarrow> nat option \<times> log_server" where
  "connect cwd fs pluginName st =
     (let pluginDir = resolve cwd [pluginName] in
      if \<not> existsSync fs pluginDir then (None, st)
      else
        let stream = streams_made st;
            streams = (case activeStreams st pluginName of None \<Rightarrow> {} | Some ss \<Rightarrow> ss);
            buildLogPath = path_join pluginDir ''build.log''
        in (Some stream,
            st\<lparr>streams_made := Suc stream,
               activeStreams := (activeStreams st)(pluginName \<mapsto> insert stream streams),
               written := (written st)
                 (stream := ''Connected to log stream'' # existing_logs fs buildLogPath)\<rparr>))"

text \<open>The handler of \<open>close\<close> that \<open>connect\<close> installs for its stream.\<close>

definition disconnect :: "string \<Rightarrow> nat \<Rightarrow> log_server \<Rightarrow> log_server" where
  "disconnect pluginName stream st =
     (let st1 =
        (case activeStreams st pluginName of
           None \<Rightarrow> st
         | Some streams \<Rightarrow>
             if streams - {stream} = {}
             then st\<lparr>activeStreams := (activeStreams st)(pluginName := None)\<rparr>
             else st\<lparr>activeStreams := (activeStreams st)(pluginName \<mapsto> streams - {stream})\<rparr>)
      in st1\<lparr>ended := insert stream (ended st1)\<rparr>)"

text \<open>
  What happens to the registry over time: clients connect (each seeing the file system of
  that moment), connections close, and messages are broadcast.
\<close>

datatype log_event =
    Connect filesystem string
  | Close string nat
  | Publish string string

fun log_step :: "string \<Rightarrow> log_server \<Rightarrow> log_event \<Rightarrow> log_server" where
  "log_step cwd st (Connect fs pluginName) = snd (connect cwd fs pluginName st)"
| "log_step cwd st (Close pluginName stream) = disconnect pluginName stream st"
| "log_step cwd st (Publish pluginName logMessage) = broadcastLogMessage pluginName logMessage st"

definition registry_ok :: "log_server \<Rightarrow> bool" where
  "registry_ok st = (\<forall>pluginName. activeStreams st pluginName \<noteq> Some {})"

text \<open>
  The build route (\<open>routes/build.ts\<close>) is the publisher. For a chunk of output of the build
  process it appends the trimmed chunk to \<open>build.log\<close> and broadcasts it; at the start of
  an attempt it overwrites \<open>build.log\<close> with a header line; its own progress messages are
  broadcast only.
\<close>

definition appendFileSync :: "filesystem \<Rightarrow> string \<Rightarrow> string \<Rightarrow> filesystem" where
  "appendFileSync fs p txt =
     fs\<lparr>file_text := (file_text fs)
          (p \<mapsto> (case file_text fs p of None \<Rightarrow> txt | Some old \<Rightarrow> old @ txt))\<rparr>"

definition on_output :: "string \<Rightarrow> string \<Rightarrow> filesystem \<times> log_server \<Rightarrow> filesystem \<times> log_server" where
  "on_output pluginDir chunk sys =
     (let text = trim chunk in
      if text \<noteq> [] then
        (appendFileSync (fst sys) (path_join pluginDir ''build.log'') (text @ [CHR 0x0A]),
         broadcastLogMessage (basename pluginDir) text (snd sys))
      else sys)"

definition start_attempt :: "string \<Rightarrow> string \<Rightarrow> filesystem \<times> log_server \<Rightarrow> filesystem \<times> log_server" where
  "start_attempt pluginDir header sys =
     ((fst sys)\<lparr>file_text := (file_text (fst sys))
         (path_join pluginDir ''build.log'' \<mapsto> header @ [CHR 0x0A])\<rparr>,
      snd sys)"

definition announce :: "string \<Rightarrow> string \<Rightarrow> filesystem \<times> log_server \<Rightarrow> filesystem \<times> log_server" where
  "announce pluginDir logMessage sys =
     (fst sys, broadcastLogMessage (basename pluginDir) logMessage (snd sys))"

section \<open>The build script\<close>

text \<open>
  \<open>bash.sh\<close>, called with the plugin directory as an absolute path, as the server calls
  it. It starts with \<open>set -eo pipefail\<close>: a simple command that fails outside the test of
  an \<open>if\<close> or \<open>while\<close> and outside a list of \<open>&&\<close> ends the script at once with the status
  of that command. The model follows the script from its first Maven build on; \<open>log\<close>,
  \<open>echo\<close>, \<open>mktemp\<close>, \<open>cat\<close>, \<open>rm -f\<close> and the collection of the source files are taken to
  succeed.

  The file kept as \<open>unnamed/part_007\<close> is a later revision of the script, which adds a
  test of the paths it writes. It closes several \<open>if\<close> blocks with \<open>}\<close> where \<open>fi\<close> is meant,
  so bash stops with a syntax error before the first build and no run of it is modelled.
  Of its text only the loop that writes the fixed files is embedded, beside the loop of
  \<open>bash.sh\<close>.
\<close>

datatype script = BashSh | Part007

datatype build_type = NormalBuild | NoShadeBuild | CompileOnlyBuild

text \<open>
  \<open>VERBOSE\<close> and \<open>MAX_AI_FIX_ATTEMPTS\<close>, as left by the command line; the latter is
  an integer (the default 5, or the argument of \<open>--max-attempts\<close>).
\<close>

record config =
  verbose :: bool
  max_attempts :: int

definition default_config :: config where
  "default_config = \<lparr>verbose = False, max_attempts = 5\<rparr>"

text \<open>
  The body that \<open>curl\<close> stored, for the bodies that the model covers: no bytes at all;
  bytes that are not JSON, at which \<open>jq\<close> ends with status 2; a JSON object whose
  \<open>status\<close> is not \<open>"success"\<close>; a JSON object with status \<open>"success"\<close> whose \<open>data\<close> is an
  object that maps paths to texts.
\<close>

datatype api_response =
    NoBody
  | NotJson
  | NotSuccess
  | Fixes "(string \<times> string) list"

text \<open>
  What the world answers during the fix attempt with a given number: the exit status and
  the output of \<open>build_plugin "compile-only"\<close>, the exit status of \<open>curl\<close> and the body
  it stored, and the outcome of the Maven build, of \<open>find_jar_file\<close> (empty when there is
  no JAR file) and of \<open>verify_jar\<close> that follow the fixes.
\<close>

record attempt_env =
  compile_status :: nat
  compile_output :: string
  curl_status :: nat
  response :: api_response
  rebuild_ok :: bool
  jar_file :: string
  verify_ok :: bool

text \<open>
  What the world answers during a run: whether the script was started in the plugin
  directory itself, so that \<open>$PWD\<close> is \<open>$CURRENT_DIR\<close> also after \<open>cd "$PLUGIN_DIR"\<close>; the
  first build, its JAR file (empty when \<open>find_jar_file\<close> finds none) and its
  verification; the fix attempts; the paths at which \<open>mkdir -p\<close> or the redirection fail;
  the build without shading, the status of the assignment
  \<open>JAR_FILE=$(find target -name "*.jar" | head -n 1)\<close> that follows it (not 0 when
  \<open>target\<close> is missing), the path it finds and the verification of that file.
\<close>

record env =
  started_in_plugin_dir :: bool
  first_build_ok :: bool
  first_jar :: string
  first_verify :: bool
  attempt :: "nat \<Rightarrow> attempt_env"
  write_fails :: "string \<Rightarrow> bool"
  fallback_ok :: bool
  fallback_find_status :: nat
  fallback_jar :: string
  fallback_verify :: bool

text \<open>The text of \<open>build_result.json\<close>, by the shape the script gives it.\<close>

datatype build_result =
    Built string
  | BuiltAfterFixes string nat
  | BuiltNoShade string
  | BuildFailure string

fun result_success :: "build_result \<Rightarrow> bool" where
  "result_success (Built jar) = True"
| "result_success (BuiltAfterFixes jar fixes) = True"
| "result_success (BuiltNoShade jar) = True"
| "result_success (BuildFailure err) = False"

text \<open>What a run does, in order: Maven builds, fix attempts, requests, files it writes.\<close>

datatype event =
    Build build_type
  | FixAttempt nat
  | FixRequest
  | Updated string string
  | Suspicious string

text \<open>
  \<open>for FILE_PATH in $(echo "$FIXED_FILES" | jq -r 'keys[]')\<close>: \<open>jq\<close> prints the keys
  sorted, one per line, and the shell splits the unquoted text into words at spaces, tabs
  and line feeds. Pathname expansion is left out: no key holds \<open>*\<close>, \<open>?\<close> or \<open>[\<close>.
\<close>

definition is_ifs :: "char \<Rightarrow> bool" where
  "is_ifs c = (c = CHR 0x20 \<or> c = CHR 0x09 \<or> c = CHR 0x0A)"

fun shell_words :: "string \<Rightarrow> string \<Rightarrow> string list" where
  "shell_words w [] = (if w = [] then [] else [w])"
| "shell_words w (c # cs) =
     (if is_ifs c then (if w = [] then shell_words [] cs else w # shell_words [] cs)
      else shell_words (w @ [c]) cs)"

definition file_paths :: "(string \<times> string) list \<Rightarrow> string list" where
  "file_paths fixed = concat (map (shell_words []) (sort (map fst fixed)))"

text \<open>\<open>jq -r --arg path "$FILE_PATH" '.[$path]'\<close>: the text of the entry, or \<open>null\<close>.\<close>

definition entry_text :: "(string \<times> string) list \<Rightarrow> string \<Rightarrow> string" where
  "entry_text fixed path =
     (case map_of fixed path of Some content \<Rightarrow> content | None \<Rightarrow> ''null'') @ [CHR 0x0A]"

text \<open>
  The loop that writes the fixed files. Only \<open>part_007\<close> tests the path. A failure of
  \<open>mkdir -p\<close> or of the redirection ends the script with status 1.
\<close>

fun apply_fixes :: "script \<Rightarrow> (string \<Rightarrow> bool) \<Rightarrow> (string \<times> string) list \<Rightarrow> string list \<Rightarrow> event list \<Rightarrow> nat option \<times> event list" where
  "apply_fixes sc fails fixed [] evs = (None, evs)"
| "apply_fixes sc fails fixed (path # paths) evs =
     (if sc = Part007 \<and> (str_includes path ''..'' \<or> startsWith path ''/'')
      then apply_fixes sc fails fixed paths (evs @ [Suspicious path])
      else if fails path then (Some 1, evs)
      else apply_fixes sc fails fixed paths (evs @ [Updated path (entry_text fixed path)]))"

text \<open>The variables of the script that the loop changes, and what it has done so far.\<close>

record loop_state =
  build_success :: bool
  build_errors :: string
  trace :: "event list"
  result_file :: "build_result option"

text \<open>
  The Maven build that follows the fixes, and the search and verification of the JAR file.
\<close>

definition retry_build :: "attempt_env \<Rightarrow> nat \<Rightarrow> loop_state \<Rightarrow> loop_state" where
  "retry_build a n st =
     (let st1 = st\<lparr>trace := trace st @ [Build NormalBuild]\<rparr> in
      if rebuild_ok a \<and> jar_file a \<noteq> [] \<and> verify_ok a
      then st1\<lparr>result_file := Some (BuiltAfterFixes (jar_file a) n), build_success := True\<rparr>
      else st1)"

text \<open>
  The body of the \<open>while\<close> loop of \<open>bash.sh\<close> for the attempt numbered \<open>n\<close> (the value of
  \<open>AI_FIX_ATTEMPTS\<close> after its increment). The result is \<open>Some status\<close> when the script
  ends inside the body under \<open>set -e\<close>, and \<open>None\<close> when the body reaches its end, a
  \<open>continue\<close> or the \<open>break\<close>. The script is ended by
  \<open>BUILD_ERRORS=$(build_plugin "compile-only")\<close> when Maven fails, by \<open>wait $CURL_PID\<close>
  when \<open>curl\<close> fails (the spinner of the other mode does not look at its status), by
  \<open>ERROR_MSG=$(echo "$FIX_RESPONSE" | jq -r ...)\<close> when the body is not JSON, and by a
  write that fails.
\<close>

definition fix_iteration :: "config \<Rightarrow> env \<Rightarrow> nat \<Rightarrow> loop_state \<Rightarrow> nat option \<times> loop_state" where
  "fix_iteration cfg e n st =
     (let a = attempt e n;
          st1 = st\<lparr>trace := trace st @ [FixAttempt n, Build CompileOnlyBuild]\<rparr>
      in if compile_status a \<noteq> 0 then (Some (compile_status a), st1)
         else
           let st2 = st1\<lparr>build_errors := compile_output a\<rparr>;
               st3 = st2\<lparr>trace := trace st2 @ [FixRequest]\<rparr>
           in if verbose cfg \<and> curl_status a \<noteq> 0 then (Some (curl_status a), st3)
              else
                case response a of
                  NoBody \<Rightarrow> (None, st3)
                | NotJson \<Rightarrow> (Some 2, st3)
                | NotSuccess \<Rightarrow> (None, st3)
                | Fixes fixed \<Rightarrow>
                    (case apply_fixes BashSh (write_fails e) fixed (file_paths fixed) (trace st3) of
                       (Some status, evs) \<Rightarrow> (Some status, st3\<lparr>trace := evs\<rparr>)
                     | (None, evs) \<Rightarrow> (None, retry_build a n (st3\<lparr>trace := evs\<rparr>))))"

text \<open>
  \<open>while [ $AI_FIX_ATTEMPTS -lt $MAX_AI_FIX_ATTEMPTS ] && [ "$BUILD_SUCCESS" = false ]\<close>,
  started with \<open>n = 0\<close>. The result also gives the final value of \<open>AI_FIX_ATTEMPTS\<close>.
\<close>

function fix_loop :: "config \<Rightarrow> env \<Rightarrow> nat \<Rightarrow> loop_state \<Rightarrow> nat option \<times> nat \<times> loop_state" where
  "fix_loop cfg e n st =
     (if int n < max_attempts cfg \<and> \<not> build_success st then
        (case fix_iteration cfg e (Suc n) st of
           (Some status, st') \<Rightarrow> (Some status, Suc n, st')
         | (None, st') \<Rightarrow> fix_loop cfg e (Suc n) st')
      else (None, n, st))"
  by pat_completeness auto
termination
  by (relation "measure (\<lambda>(cfg, e, n, st). nat (max_attempts cfg) - n)") auto

declare fix_loop.simps [simp del]

text \<open>
  \<open>trap cleanup EXIT\<close>. The last command of \<open>cleanup\<close> is the list
  \<open>[ -n "$CURRENT_DIR" ] && [ "$PWD" != "$CURRENT_DIR" ] && cd "$CURRENT_DIR"\<close>. When
  the shell is in \<open>$CURRENT_DIR\<close> the list has status 1, \<open>cleanup\<close> returns 1 and, under
  \<open>set -e\<close>, the shell exits with status 1 whatever the status it was leaving with;
  otherwise the status is kept. The shell is in \<open>$CURRENT_DIR\<close> at the end of the script,
  after \<open>cd "$CURRENT_DIR"\<close>, and at every earlier exit of a run that was started in the
  plugin directory.
\<close>

definition exit_trap :: "bool \<Rightarrow> nat \<Rightarrow> nat" where
  "exit_trap in_current_dir status = (if in_current_dir then 1 else status)"

text \<open>
  The end of a run: what it did, the last text written to \<open>build_result.json\<close> (if any),
  the exit status, whether \<open>set -e\<close> ended it before its last command, and the final
  values of \<open>BUILD_SUCCESS\<close> and \<open>AI_FIX_ATTEMPTS\<close>.
\<close>

record outcome =
  events :: "event list"
  build_result_json :: "build_result option"
  exit_status :: nat
  ended_by_errexit :: bool
  success_flag :: bool
  attempts_made :: nat

definition start_state :: loop_state where
  "start_state =
     \<lparr>build_success = False, build_errors = [], trace = [Build NormalBuild], result_file = None\<rparr>"

text \<open>
  The build without shading, tried when the loop has ended with \<open>BUILD_SUCCESS\<close> false.
  The search for the JAR file is an assignment that \<open>eval\<close> runs in the shell of the script:
  when it fails, \<open>set -e\<close> ends the script and no \<open>build_result.json\<close> is written. Only
  the failure of the Maven command leaves with \<open>exit 1\<close>; the other branches write their
  result and go on to the end of the script.
\<close>

definition fallback :: "env \<Rightarrow> nat \<Rightarrow> loop_state \<Rightarrow> outcome" where
  "fallback e n st =
     (let evs = trace st @ [Build NoShadeBuild] in
      if fallback_ok e then
        (if fallback_find_status e \<noteq> 0
         then \<lparr>events = evs, build_result_json = result_file st,
               exit_status = exit_trap (started_in_plugin_dir e) (fallback_find_status e),
               ended_by_errexit = True, success_flag = False, attempts_made = n\<rparr>
         else if fallback_jar e \<noteq> [] then
           (if fallback_verify e
            then \<lparr>events = evs, build_result_json = Some (BuiltNoShade (fallback_jar e)),
                  exit_status = exit_trap True 0, ended_by_errexit = False,
                  success_flag = False, attempts_made = n\<rparr>
            else \<lparr>events = evs, build_result_json = Some (BuildFailure ''JAR verification failed''),
                  exit_status = exit_trap True 0, ended_by_errexit = False,
                  success_flag = False, attempts_made = n\<rparr>)
         else \<lparr>events = evs,
               build_result_json = Some (BuildFailure ''No JAR file created even with shade skipping''),
               exit_status = exit_trap True 0, ended_by_errexit = False,
               success_flag = False, attempts_made = n\<rparr>)
      else \<lparr>events = evs, build_result_json = Some (BuildFailure ''All build attempts failed''),
            exit_status = exit_trap (started_in_plugin_dir e) 1, ended_by_errexit = False,
            success_flag = False, attempts_made = n\<rparr>)"

text \<open>
  A run of \<open>bash.sh\<close>. After a first build that succeeds the script leaves with \<open>exit 0\<close>
  or \<open>exit 1\<close>. After a build that succeeds in the loop it goes on to its last command.
\<close>

definition run_script :: "config \<Rightarrow> env \<Rightarrow> outcome" where
  "run_script cfg e =
     (if first_build_ok e then
        (if first_jar e \<noteq> [] then
           (if first_verify e
            then \<lparr>events = [Build NormalBuild], build_result_json = Some (Built (first_jar e)),
                  exit_status = exit_trap (started_in_plugin_dir e) 0,
                  ended_by_errexit = False, success_flag = False, attempts_made = 0\<rparr>
            else \<lparr>events = [Build NormalBuild],
                  build_result_json = Some (BuildFailure ''JAR verification failed''),
                  exit_status = exit_trap (started_in_plugin_dir e) 1,
                  ended_by_errexit = False, success_flag = False, attempts_made = 0\<rparr>)
         else \<lparr>events = [Build NormalBuild],
               build_result_json = Some (BuildFailure ''JAR file not found''),
               exit_status = exit_trap (started_in_plugin_dir e) 1,
               ended_by_errexit = False, success_flag = False, attempts_made = 0\<rparr>)
      else
        case fix_loop cfg e 0 start_state of
          (Some status, n, st) \<Rightarrow>
            \<lparr>events = trace st, build_result_json = result_file st,
             exit_status = exit_trap (started_in_plugin_dir e) status,
             ended_by_errexit = True, success_flag = build_success st, attempts_made = n\<rparr>
        | (None, n, st) \<Rightarrow>
            if build_success st
            then \<lparr>events = trace st, build_result_json = result_file st,
                  exit_status = exit_trap True 0,
                  ended_by_errexit = False, success_flag = True, attempts_made = n\<rparr>
            else fallback e n st)"

text \<open>The numbers of the fix attempts that a run has started, in order.\<close>

fun attempt_numbers :: "event list \<Rightarrow> nat list" where
  "attempt_numbers [] = []"
| "attempt_numbers (FixAttempt n # evs) = n # attempt_numbers evs"
| "attempt_numbers (ev # evs) = attempt_numbers evs"

text \<open>
  An attempt in which the fix service brings nothing: no body or a response that is not a
  success, or a success with no file in it. After a success with no file \<open>bash.sh\<close> still
  runs the Maven build, so that build must not end in a verified JAR file.
\<close>

definition unproductive :: "attempt_env \<Rightarrow> bool" where
  "unproductive a =
     (response a = NoBody \<or> response a = NotSuccess \<or>
      (response a = Fixes [] \<and> \<not> (rebuild_ok a \<and> jar_file a \<noteq> [] \<and> verify_ok a)))"

text \<open>
  An attempt that sets \<open>BUILD_SUCCESS\<close> when the script gets through it: the fix service
  sends fixes and the Maven build that follows them leaves a JAR file that is verified.
\<close>

definition fixed_build :: "attempt_env \<Rightarrow> bool" where
  "fixed_build a =
     (case response a of
        Fixes fixed \<Rightarrow> rebuild_ok a \<and> jar_file a \<noteq> [] \<and> verify_ok a
      | _ \<Rightarrow> False)"

section \<open>Concrete inputs\<close>

text \<open>
  A project whose sources compile but whose packaging fails in the shade plugin, and a fix
  service that answers every request with an error: each attempt compiles cleanly, gets
  no fix, and the build without shading then succeeds. The script is started in the
  directory of the server, not in the plugin directory.
\<close>

definition refused_attempt :: attempt_env where
  "refused_attempt =
     \<lparr>compile_status = 0, compile_output = ''[INFO] BUILD SUCCESS'',
      curl_status = 0, response = NotSuccess,
      rebuild_ok = False, jar_file = [], verify_ok = False\<rparr>"

definition shade_failure_env :: env where
  "shade_failure_env =
     \<lparr>started_in_plugin_dir = False,
      first_build_ok = False, first_jar = [], first_verify = False,
      attempt = (\<lambda>n. refused_attempt), write_fails = (\<lambda>path. False),
      fallback_ok = True, fallback_find_status = 0,
      fallback_jar = ''target/demo-1.0.jar'', fallback_verify = True\<rparr>"

text \<open>
  A project with a compile error, built with \<open>--max-attempts 1\<close>: the first build fails
  and so does \<open>mvn clean compile\<close> in the fix attempt. And a project as in
  \<open>shade_failure_env\<close>, built with the default budget, for which the fix service
  answers the fourth request with a patch that does not compile.
\<close>

definition compile_error_attempt :: attempt_env where
  "compile_error_attempt =
     \<lparr>compile_status = 1,
      compile_output = ''[ERROR] /w/src/main/java/Foo.java:[12,4] cannot find symbol'',
      curl_status = 0, response = NotSuccess,
      rebuild_ok = False, jar_file = [], verify_ok = False\<rparr>"

definition compile_error_env :: env where
  "compile_error_env =
     \<lparr>started_in_plugin_dir = False,
      first_build_ok = False, first_jar = [], first_verify = False,
      attempt = (\<lambda>n. compile_error_attempt), write_fails = (\<lambda>path. False),
      fallback_ok = True, fallback_find_status = 0,
      fallback_jar = ''target/demo-1.0.jar'', fallback_verify = True\<rparr>"

definition single_attempt_config :: config where
  "single_attempt_config = \<lparr>verbose = False, max_attempts = 1\<rparr>"

definition breaking_attempt :: attempt_env where
  "breaking_attempt =
     \<lparr>compile_status = 0, compile_output = ''[INFO] BUILD SUCCESS'',
      curl_status = 0, response = Fixes [(''src/main/java/Foo.java'', ''class Foo {'')],
      rebuild_ok = False, jar_file = [], verify_ok = False\<rparr>"

definition late_compile_error_env :: env where
  "late_compile_error_env =
     shade_failure_env
       \<lparr>attempt := (\<lambda>n. if n < 4 then refused_attempt
                          else if n = 4 then breaking_attempt
                          else compile_error_attempt)\<rparr>"

text \<open>
  A project as in \<open>shade_failure_env\<close> for which the fix service answers the first
  request with a patch that does not compile and every later request with an error.
\<close>

definition patched_once_env :: env where
  "patched_once_env =
     shade_failure_env
       \<lparr>attempt := (\<lambda>n. if n = 1 then breaking_attempt else refused_attempt)\<rparr>"

text \<open>A server directory \<open>/srv\<close> with the plugin directory \<open>/srv/demo\<close>, and one without it.\<close>

definition demo_fs :: filesystem where
  "demo_fs = \<lparr>file_text = Map.empty, directories = {''/srv'', ''/srv/demo''}, denied = {}\<rparr>"

definition bare_fs :: filesystem where
  "bare_fs = \<lparr>file_text = Map.empty, directories = {''/srv''}, denied = {}\<rparr>"

text \<open>
  A fix request for a project with one broken class, and a model that answers every
  prompt with the same text.
\<close>

definition demo_entries :: "(string \<times> string) list" where
  "demo_entries =
     [(''src/main/java/Foo.java'', ''class Foo { }''),
      (''src/main/java/Bar.java'', ''class Bar { }''),
      (''pom.xml'', ''<project/>''),
      (''src/main/resources/plugin.yml'', ''name: demo''),
      (''README.md'', ''demo'')]"

definition demo_request :: fix_request where
  "demo_request =
     \<lparr>req_buildErrors = JSString ''[ERROR] /w/src/main/java/Foo.java:[12,4] cannot find symbol'',
      req_files = Some demo_entries,
      req_pluginDir = JSUndefined\<rparr>"

definition demo_model :: fixer where
  "demo_model = (\<lambda>i fixPrompt. Some ''fixed'')"

text \<open>
  A fix request whose only file lies outside the plugin directory \<open>/srv/demo\<close>, sent with
  \<open>pluginDir\<close> as \<open>part_007\<close> sends it.
\<close>

definition escaping_request :: fix_request where
  "escaping_request =
     \<lparr>req_buildErrors = JSString ''[ERROR] /w/Evil.java:[1,1] class, interface, or enum expected'',
      req_files = Some [(''../outside/Evil.java'', ''oops'')],
      req_pluginDir = JSString ''/srv/demo''\<rparr>"

text \<open>
  Following the words of the claim about lines that mention the build descriptor: the line
  ``with a leading \<open>[ERROR] \<close> prefix stripped''.
\<close>

definition claimed_strip :: "string \<Rightarrow> string" where
  "claimed_strip line = (if startsWith line ''[ERROR] '' then drop 8 line else line)"

text \<open>
  A build whose first chunk of output is published, followed by a progress message and the
  start of the second attempt; then a client connects.
\<close>

definition published_earlier :: "filesystem \<times> log_server" where
  "published_earlier =
     start_attempt ''/srv/demo'' ''Build attempt 2 started''
       (announce ''/srv/demo'' ''Build failed. Attempting to fix issues automatically...''
          (on_output ''/srv/demo'' ''[INFO] Compiling 3 source files''
             (demo_fs, no_streams)))"

definition late_client :: "nat option \<times> log_server" where
  "late_client = connect ''/srv'' (fst published_earlier) ''demo'' (snd published_earlier)"

section \<open>Properties of the error parser\<close>

lemmas class_defs = is_space_def is_digit_def not_colon_def not_line_terminator_def startsWith_def

lemmas parse_defs = parseErrors_def split_lines_def parse_line_def trim_def fileErrorMatch_def
  fileErrorRe_def class_defs basename_def push_file_error_def empty_result_def
  object_prototype_keys_def

text \<open>
  Every match of the structured pattern fills its three groups, so \<open>fileErrorMatch\<close>
  gives \<open>None\<close> only when the pattern matches nowhere in the line.
\<close>

lemma rx_groups:
  "all_groups_filled r \<Longrightarrow> (c, t) \<in> set (rx r s) \<Longrightarrow> length c = groups r"
proof (induction r arbitrary: c t s)
  case (Lit l)
  then show ?case by (auto split: if_splits)
next
  case (Plus p)
  then show ?case by auto
next
  case (Star p)
  then show ?case by auto
next
  case (Opt r)
  then show ?case by auto
next
  case (Seq a b)
  from Seq.prems(2) obtain c1 s1 c2 where
    "(c1, s1) \<in> set (rx a s)" "(c2, t) \<in> set (rx b s1)" "c = c1 @ c2"
    by auto
  with Seq.IH Seq.prems(1) show ?case by auto
next
  case (Alt a b)
  then show ?case by auto
next
  case (Cap r)
  then show ?case by auto
qed

lemma search_groups:
  "all_groups_filled r \<Longrightarrow> search r pre s = Some (a, caps, b) \<Longrightarrow> length caps = groups r"
proof (induction s arbitrary: pre)
  case Nil
  then show ?case
    by (cases "rx r []") (auto dest: rx_groups [of r _ _ "[]"])
next
  case (Cons x xs)
  show ?case
  proof (cases "rx r (x # xs)")
    case Nil
    with Cons.prems(2) have "search r (pre @ [x]) xs = Some (a, caps, b)" by simp
    from Cons.IH [OF Cons.prems(1) this] show ?thesis .
  next
    case (Cons m ms)
    obtain c t where m: "m = (c, t)" by (cases m)
    with Cons Cons.prems(2) have "caps = c" by simp
    moreover have "(c, t) \<in> set (rx r (x # xs))" using Cons m by simp
    ultimately show ?thesis using rx_groups [OF Cons.prems(1)] by blast
  qed
qed

lemma file_error_groups: "all_groups_filled fileErrorRe \<and> groups fileErrorRe = 3"
  by (simp add: fileErrorRe_def)

lemma no_file_error_match:
  "fileErrorMatch line = None \<longleftrightarrow> search fileErrorRe [] line = None"
proof (cases "search fileErrorRe [] line")
  case None
  then show ?thesis by (simp add: fileErrorMatch_def)
next
  case (Some m)
  obtain a caps b where m: "m = (a, caps, b)" by (cases m)
  from search_groups [of fileErrorRe "[]" line a caps b] Some m file_error_groups
  have "length caps = 3" by simp
  then obtain c1 c2 c3 where "caps = [c1, c2, c3]"
    by (auto simp: length_Suc_conv numeral_3_eq_3)
  with Some m show ?thesis by (simp add: fileErrorMatch_def)
qed

text \<open>
  Claim C4. Parsing the single line \<open>[ERROR] Foo.java:[12,4] cannot find symbol\<close> gives a
  \<open>fileErrors\<close> dictionary whose only entry is \<open>Foo.java\<close> with the one message
  \<open>Line 12: cannot find symbol\<close>, and no general errors.
\<close>

theorem parse_structured_line_example:
  "parseErrors (JSString ''[ERROR] Foo.java:[12,4] cannot find symbol'') =
     Inr \<lparr>fileErrors = [''Foo.java'' \<mapsto> [''Line 12: cannot find symbol'']],
          generalErrors = []\<rparr>"
  by (simp add: parse_defs)

text \<open>
  Claim C5. When the input of the parser is not a string, or is the empty string, the
  parser returns the empty result: no file errors, no general errors, and no exception.
\<close>

theorem parse_non_string_or_empty:
  "\<not> is_string v \<or> v = JSString [] \<Longrightarrow> parseErrors v = Inr empty_result"
  by (cases v) (auto simp: parseErrors_def split_lines_def parse_line_def trim_def)

theorem parse_non_string_or_empty_witness:
  "parseErrors JSNull = Inr empty_result \<and> parseErrors (JSNumber 7) = Inr empty_result \<and>
   parseErrors (JSString []) = Inr empty_result"
  using parse_non_string_or_empty [of JSNull] parse_non_string_or_empty [of "JSNumber 7"]
    parse_non_string_or_empty [of "JSString []"]
  by simp

lemma pom_not_inherited: "''pom.xml'' \<notin> set object_prototype_keys"
  by (simp add: object_prototype_keys_def)

text \<open>
  What the removal of the tag does in the two common cases: a line that starts with the
  tag loses the tag and the white space after it, and a line without the tag is kept.
\<close>

lemma greedy_not_empty: "greedy p s \<noteq> []"
  by (induction s) simp_all

lemma hd_greedy: "hd (greedy p s) = dropWhile p s"
  by (induction s) (simp_all add: greedy_not_empty)

lemma replace_leading_tag:
  assumes "is_space c"
  shows "replace_first errorTagRe (''[ERROR]'' @ c # cs) = dropWhile is_space cs"
proof -
  have "greedy is_space cs \<noteq> []" by (rule greedy_not_empty)
  then obtain t ts where g: "greedy is_space cs = t # ts" by (cases "greedy is_space cs") auto
  with hd_greedy [of is_space cs] have t: "t = dropWhile is_space cs" by simp
  show ?thesis
    using assms g t by (simp add: replace_first_def errorTagRe_def startsWith_def)
qed

lemma search_tag_absent:
  "\<not> str_includes s ''[ERROR]'' \<Longrightarrow> search errorTagRe pre s = None"
proof (induction s arbitrary: pre)
  case Nil
  then show ?case by (simp add: errorTagRe_def startsWith_def)
next
  case (Cons c cs)
  from Cons.prems have a: "\<not> startsWith (c # cs) ''[ERROR]''" and b: "\<not> str_includes cs ''[ERROR]''"
    by simp_all
  from a have "rx errorTagRe (c # cs) = []" by (simp add: errorTagRe_def)
  with Cons.IH [OF b] show ?case by simp
qed

lemma replace_tag_absent:
  "\<not> str_includes s ''[ERROR]'' \<Longrightarrow> replace_first errorTagRe s = s"
  by (simp add: replace_first_def search_tag_absent del: search.simps)

text \<open>
  Claim C8, as the claim states it, fails: the tag is removed wherever it first stands in
  the line, not only in front. The line \<open>maven [ERROR] x\<close> does not match the structured
  pattern and mentions \<open>maven\<close>; it is filed under \<open>pom.xml\<close> as \<open>maven x\<close>, while
  stripping a leading \<open>[ERROR] \<close> prefix would leave the line as it is.
\<close>

theorem tag_removed_inside_line:
  "trim ''maven [ERROR] x'' \<noteq> [] \<and>
   fileErrorMatch (trim ''maven [ERROR] x'') = None \<and>
   str_includes (trim ''maven [ERROR] x'') ''maven'' \<and>
   parse_line empty_result ''maven [ERROR] x'' =
     Inr (empty_result\<lparr>fileErrors := [''pom.xml'' \<mapsto> [''maven x'']]\<rparr>) \<and>
   claimed_strip (trim ''maven [ERROR] x'') = ''maven [ERROR] x'' \<and>
   parse_line empty_result ''maven [ERROR] x'' \<noteq>
     Inr (empty_result\<lparr>fileErrors := [''pom.xml'' \<mapsto> [claimed_strip (trim ''maven [ERROR] x'')]]\<rparr>)"
proof -
  have code: "parse_line empty_result ''maven [ERROR] x'' =
      Inr (empty_result\<lparr>fileErrors := [''pom.xml'' \<mapsto> [''maven x'']]\<rparr>)"
    by (simp add: parse_defs replace_first_def errorTagRe_def)
  have claim: "claimed_strip (trim ''maven [ERROR] x'') = ''maven [ERROR] x''"
    by (simp add: claimed_strip_def trim_def class_defs)
  have "[''pom.xml'' \<mapsto> [''maven x'']] ''pom.xml'' \<noteq> [''pom.xml'' \<mapsto> [''maven [ERROR] x'']] ''pom.xml''"
    by simp
  then have "[''pom.xml'' \<mapsto> [''maven x'']] \<noteq> [''pom.xml'' \<mapsto> [''maven [ERROR] x'']]"
    by metis
  then have differ: "parse_line empty_result ''maven [ERROR] x'' \<noteq>
      Inr (empty_result\<lparr>fileErrors := [''pom.xml'' \<mapsto> [claimed_strip (trim ''maven [ERROR] x'')]]\<rparr>)"
    unfolding code claim by (simp add: empty_result_def)
  have pre: "trim ''maven [ERROR] x'' \<noteq> [] \<and> fileErrorMatch (trim ''maven [ERROR] x'') = None \<and>
      str_includes (trim ''maven [ERROR] x'') ''maven''"
    by (simp add: parse_defs)
  show ?thesis using code claim differ pre by blast
qed

text \<open>
  Claim C8, amended. A line that is not blank, does not match the structured pattern and
  contains \<open>pom.xml\<close>, \<open>POM\<close> or \<open>maven\<close> is appended to the messages of \<open>pom.xml\<close>
  after the first occurrence of \<open>[ERROR]\<close> followed by white space has been removed from
  it, wherever that occurrence stands; whether the line carries an error or fatal marker
  plays no part.
\<close>

theorem pom_keyword_lines:
  assumes "trim raw \<noteq> []"
      and "fileErrorMatch (trim raw) = None"
      and "str_includes (trim raw) ''pom.xml'' \<or> str_includes (trim raw) ''POM'' \<or>
           str_includes (trim raw) ''maven''"
  shows "parse_line r raw =
           Inr (r\<lparr>fileErrors := (fileErrors r)
                  (''pom.xml'' \<mapsto> errors_of r ''pom.xml'' @ [replace_first errorTagRe (trim raw)])\<rparr>)"
  using assms
  by (auto simp: parse_line_def Let_def push_file_error_def pom_not_inherited errors_of_def
           split: option.splits)

theorem pom_keyword_lines_witness:
  "parse_line empty_result ''  [INFO] Scanning for projects with maven  '' =
     Inr (empty_result\<lparr>fileErrors :=
            [''pom.xml'' \<mapsto> [''[INFO] Scanning for projects with maven'']]\<rparr>)"
proof -
  have a: "trim ''  [INFO] Scanning for projects with maven  '' \<noteq> []"
    by (simp add: trim_def class_defs)
  have b: "fileErrorMatch (trim ''  [INFO] Scanning for projects with maven  '') = None"
    by (simp add: trim_def fileErrorMatch_def fileErrorRe_def class_defs)
  have c: "str_includes (trim ''  [INFO] Scanning for projects with maven  '') ''pom.xml'' \<or>
           str_includes (trim ''  [INFO] Scanning for projects with maven  '') ''POM'' \<or>
           str_includes (trim ''  [INFO] Scanning for projects with maven  '') ''maven''"
    by (simp add: trim_def class_defs)
  have d: "replace_first errorTagRe (trim ''  [INFO] Scanning for projects with maven  '') =
           ''[INFO] Scanning for projects with maven''"
    by (simp add: trim_def replace_first_def errorTagRe_def class_defs)
  show ?thesis
    using pom_keyword_lines [OF a b c, of empty_result] d
    by (simp add: errors_of_def empty_result_def)
qed

section \<open>Properties of the fix route\<close>

lemma set_property_keys: "fst ` set (set_property k v kvs) = insert k (fst ` set kvs)"
proof (induction kvs)
  case Nil
  then show ?case by simp
next
  case (Cons kv kvs)
  obtain k' v' where kv: "kv = (k', v')" by (cases kv)
  show ?case unfolding kv using Cons.IH by (cases "k' = k") auto
qed

lemma prompt_for_Some: "prompt_for parsed f c = Some p \<Longrightarrow>
   endsWith f ''.java'' \<or> endsWith f ''pom.xml'' \<or> endsWith f ''plugin.yml''"
  unfolding prompt_for_def by (simp split: if_splits)

lemma fix_files_keys:
  "fst ` set (fix_files model parsed i entries acc) \<subseteq>
     fst ` set acc \<union> {f \<in> fst ` set entries. patchable parsed f}"
proof (induction entries arbitrary: i acc)
  case Nil
  then show ?case by simp
next
  case (Cons e entries)
  obtain f c where e: "e = (f, c)" by (cases e)
  let ?R = "{g \<in> fst ` set entries. patchable parsed g}"
  have skip: "fst ` set (fix_files model parsed (Suc i) entries acc) \<subseteq> fst ` set acc \<union> ?R"
    by (rule Cons.IH)
  have mono: "fst ` set acc \<union> ?R \<subseteq> fst ` set acc \<union> {g \<in> fst ` set (e # entries). patchable parsed g}"
    by auto
  show ?case
  proof (cases "errors_of parsed (basename f) = [] \<and> \<not> endsWith f ''pom.xml''")
    case True
    then have "fix_files model parsed i (e # entries) acc = fix_files model parsed (Suc i) entries acc"
      unfolding e by simp
    then show ?thesis using skip mono by auto
  next
    case False
    note nf = False
    show ?thesis
    proof (cases "prompt_for parsed f c")
      case None
      then have "fix_files model parsed i (e # entries) acc = fix_files model parsed (Suc i) entries acc"
        unfolding e using nf by auto
      then show ?thesis using skip mono by auto
    next
      case (Some p)
      note sp = Some
      have pf: "patchable parsed f" using nf prompt_for_Some[OF sp] by (simp add: patchable_def)
      show ?thesis
      proof (cases "model i p")
        case None
        then have "fix_files model parsed i (e # entries) acc = fix_files model parsed (Suc i) entries acc"
          unfolding e using nf sp by auto
        then show ?thesis using skip mono by auto
      next
        case (Some answer)
        have "fst ` set (fix_files model parsed (Suc i) entries (set_property f (cleanContent answer) acc))
              \<subseteq> insert f (fst ` set acc) \<union> ?R"
          using Cons.IH[of "Suc i" "set_property f (cleanContent answer) acc"]
          by (simp add: set_property_keys)
        moreover have "insert f (fst ` set acc) \<union> ?R \<subseteq> fst ` set acc \<union> {g \<in> fst ` set ((f, c) # entries). patchable parsed g}"
          using pf by auto
        moreover have "fix_files model parsed i (e # entries) acc =
            fix_files model parsed (Suc i) entries (set_property f (cleanContent answer) acc)"
          unfolding e using nf sp Some by auto
        ultimately show ?thesis unfolding e by auto
      qed
    qed
  qed
qed

text \<open>
  Claim C9. When the fix route answers a request with a patch set, the keys of the patch
  set are keys of the request's \<open>files\<close>; each key ends in \<open>.java\<close>, \<open>pom.xml\<close> or
  \<open>plugin.yml\<close>; and a file whose base name has no parsed errors is left out unless its
  path ends in \<open>pom.xml\<close>.
\<close>

theorem patch_keys:
  assumes "req_files req = Some entries"
      and "parseErrors (req_buildErrors req) = Inr parsed"
      and "fix_route model cwd req fs = (FixSuccess filesWritten patch, fs')"
  shows "fst ` set patch \<subseteq> fst ` set entries \<and>
         (\<forall>f \<in> fst ` set patch.
            endsWith f ''.java'' \<or> endsWith f ''pom.xml'' \<or> endsWith f ''plugin.yml'') \<and>
         (\<forall>f \<in> fst ` set entries.
            errors_of parsed (basename f) = [] \<and> \<not> endsWith f ''pom.xml'' \<longrightarrow>
            f \<notin> fst ` set patch)"
proof -
  from assms have tr: "truthy (req_buildErrors req)"
    by (simp add: fix_route_def split: if_splits)
  from assms tr have patch: "patch = fix_files model parsed 0 entries []"
    by (auto simp: fix_route_def Let_def split: if_splits js_value.splits prod.splits)
  have keys: "fst ` set patch \<subseteq> {f \<in> fst ` set entries. patchable parsed f}"
    unfolding patch using fix_files_keys [of model parsed 0 entries "[]"] by simp
  show ?thesis
    using keys unfolding patchable_def by blast
qed

lemmas route_defs = fix_route_def errors_of_def basename_def endsWith_def prompt_for_def
  cleanContent_def trim_def is_space_def startsWith_def

lemma demo_parse:
  "parseErrors (JSString ''[ERROR] /w/src/main/java/Foo.java:[12,4] cannot find symbol'') =
     Inr \<lparr>fileErrors = [''Foo.java'' \<mapsto> [''Line 12: cannot find symbol'']],
          generalErrors = []\<rparr>"
  by (simp add: parse_defs)

theorem patch_keys_witness:
  "fix_route demo_model ''/srv'' demo_request demo_fs =
     (FixSuccess False [(''src/main/java/Foo.java'', ''fixed''), (''pom.xml'', ''fixed'')], demo_fs) \<and>
   fst ` set [(''src/main/java/Foo.java'', ''fixed''), (''pom.xml'', ''fixed'')]
     \<subseteq> fst ` set demo_entries \<and>
   ''src/main/java/Bar.java'' \<notin>
     fst ` set [(''src/main/java/Foo.java'', ''fixed''), (''pom.xml'', ''fixed'')]"
proof -
  have a: "req_files demo_request = Some demo_entries"
    by (simp add: demo_request_def)
  have b: "parseErrors (req_buildErrors demo_request) =
      Inr \<lparr>fileErrors = [''Foo.java'' \<mapsto> [''Line 12: cannot find symbol'']],
           generalErrors = []\<rparr>"
    using demo_parse by (simp add: demo_request_def)
  have c: "fix_route demo_model ''/srv'' demo_request demo_fs =
      (FixSuccess False [(''src/main/java/Foo.java'', ''fixed''), (''pom.xml'', ''fixed'')], demo_fs)"
    by (simp add: demo_request_def demo_parse demo_entries_def demo_model_def route_defs)
  show ?thesis
    using patch_keys [OF a b c] c by simp
qed

section \<open>Where fixed files are written\<close>

lemmas path_defs = resolve_def path_join_def join_segments_def startsWith_def existsSync_def
  dirname_def

text \<open>
  The loop of \<open>part_007\<close> writes no path that contains \<open>..\<close> or starts with \<open>/\<close>: such a
  word is logged as suspicious and the loop goes on.
\<close>

lemma part007_skips_suspicious:
  "apply_fixes Part007 fails fixed paths evs = (ab, evs') \<Longrightarrow>
     Updated path content \<in> set evs' \<Longrightarrow>
     Updated path content \<in> set evs \<or> (\<not> str_includes path ''..'' \<and> \<not> startsWith path ''/'')"
proof (induction paths arbitrary: evs)
  case Nil
  then show ?case by simp
next
  case (Cons w ws)
  show ?case
  proof (cases "str_includes w ''..'' \<or> startsWith w ''/''")
    case True
    with Cons.prems(1) have "apply_fixes Part007 fails fixed ws (evs @ [Suspicious w]) = (ab, evs')"
      by simp
    from Cons.IH [OF this Cons.prems(2)] show ?thesis by auto
  next
    case False
    note safe = False
    show ?thesis
    proof (cases "fails w")
      case True
      with safe Cons.prems show ?thesis by auto
    next
      case False
      with safe Cons.prems(1)
      have "apply_fixes Part007 fails fixed ws (evs @ [Updated w (entry_text fixed w)]) = (ab, evs')"
        by auto
      from Cons.IH [OF this Cons.prems(2)] safe show ?thesis by auto
    qed
  qed
qed

text \<open>
  Claim C3 at a failing input. The request \<open>escaping_request\<close> names the file
  \<open>../outside/Evil.java\<close>; the fix route answers with a patch for it and
  \<open>writeFixedFiles\<close> has written the patch to \<open>/srv/outside/Evil.java\<close>, outside the plugin
  directory \<open>/srv/demo\<close>. The loop of \<open>bash.sh\<close> writes the same entry of a response to
  \<open>../outside/Evil.java\<close>. Only the loop of \<open>part_007\<close> drops it.
\<close>

theorem traversal_path_written:
  "fst (fix_route demo_model ''/srv'' escaping_request demo_fs) =
     FixSuccess True [(''../outside/Evil.java'', ''fixed'')] \<and>
   file_text (snd (fix_route demo_model ''/srv'' escaping_request demo_fs))
     ''/srv/outside/Evil.java'' = Some ''fixed'' \<and>
   apply_fixes BashSh (\<lambda>path. False) [(''../outside/Evil.java'', ''fixed'')]
     (file_paths [(''../outside/Evil.java'', ''fixed'')]) [] =
     (None, [Updated ''../outside/Evil.java'' (''fixed'' @ [CHR 0x0A])]) \<and>
   apply_fixes Part007 (\<lambda>path. False) [(''../outside/Evil.java'', ''fixed'')]
     (file_paths [(''../outside/Evil.java'', ''fixed'')]) [] =
     (None, [Suspicious ''../outside/Evil.java''])"
proof -
  have parsed: "parseErrors (JSString ''[ERROR] /w/Evil.java:[1,1] class, interface, or enum expected'') =
      Inr \<lparr>fileErrors = [''Evil.java'' \<mapsto> [''Line 1: class, interface, or enum expected'']],
           generalErrors = []\<rparr>"
    by (simp add: parse_defs)
  have route: "fix_route demo_model ''/srv'' escaping_request demo_fs =
      (FixSuccess True [(''../outside/Evil.java'', ''fixed'')],
       \<lparr>file_text = [''/srv/outside/Evil.java'' \<mapsto> ''fixed''],
        directories = {''/srv'', ''/srv/demo''} \<union> {''/srv/outside'', ''/srv'', ''/''},
        denied = {}\<rparr>)"
    by (simp add: escaping_request_def parsed demo_model_def route_defs writeFixedFiles_def
          path_defs demo_fs_def mkdir_recursive_def mkdir_throws_def ancestors_def)
  have scripts: "apply_fixes BashSh (\<lambda>path. False) [(''../outside/Evil.java'', ''fixed'')]
        (file_paths [(''../outside/Evil.java'', ''fixed'')]) [] =
        (None, [Updated ''../outside/Evil.java'' (''fixed'' @ [CHR 0x0A])]) \<and>
      apply_fixes Part007 (\<lambda>path. False) [(''../outside/Evil.java'', ''fixed'')]
        (file_paths [(''../outside/Evil.java'', ''fixed'')]) [] =
        (None, [Suspicious ''../outside/Evil.java''])"
    by (simp add: file_paths_def entry_text_def is_ifs_def startsWith_def)
  show ?thesis using scripts by (simp add: route)
qed

section \<open>Properties of the build status route\<close>

text \<open>
  Claim C6, as the claim states it, fails: when the directory of the project does not
  exist there is no stored record either, and the query is answered with status 404 and
  \<open>success: false\<close>.
\<close>

theorem status_missing_directory_is_error:
  "\<not> existsSync bare_fs (path_join (resolve ''/srv'' [''demo'']) ''build_result.json'') \<and>
   \<not> existsSync bare_fs (path_join (resolve ''/srv'' [''demo'']) ''build.log'') \<and>
   build_status (\<lambda>t. True) ''/srv'' bare_fs ''demo'' = PluginNotFound \<and>
   \<not> reply_success (build_status (\<lambda>t. True) ''/srv'' bare_fs ''demo'') \<and>
   http_status (build_status (\<lambda>t. True) ''/srv'' bare_fs ''demo'') = 404"
  by (simp add: build_status_def path_defs bare_fs_def)

text \<open>
  Claim C6, amended. A query for a project that has neither \<open>build_result.json\<close> nor
  \<open>build.log\<close> is answered with ``Build not started'', status 200 and \<open>success: true\<close>,
  when the directory of the project exists; when the directory does not exist the answer is
  ``Plugin not found'' with status 404.
\<close>

theorem status_without_record:
  assumes "\<not> existsSync fs (path_join (resolve cwd [pluginName]) ''build_result.json'')"
      and "\<not> existsSync fs (path_join (resolve cwd [pluginName]) ''build.log'')"
  shows "build_status parses cwd fs pluginName =
           (if existsSync fs (resolve cwd [pluginName]) then BuildNotStarted else PluginNotFound) \<and>
         http_status BuildNotStarted = 200 \<and> reply_success BuildNotStarted \<and>
         http_status PluginNotFound = 404 \<and> \<not> reply_success PluginNotFound"
  using assms by (simp add: build_status_def Let_def)

theorem status_without_record_witness:
  "existsSync demo_fs (resolve ''/srv'' [''demo'']) \<and>
   build_status (\<lambda>t. True) ''/srv'' demo_fs ''demo'' = BuildNotStarted"
proof -
  have a: "\<not> existsSync demo_fs (path_join (resolve ''/srv'' [''demo'']) ''build_result.json'')"
    by (simp add: path_defs demo_fs_def)
  have b: "\<not> existsSync demo_fs (path_join (resolve ''/srv'' [''demo'']) ''build.log'')"
    by (simp add: path_defs demo_fs_def)
  have c: "existsSync demo_fs (resolve ''/srv'' [''demo''])"
    by (simp add: path_defs demo_fs_def)
  show ?thesis
    using status_without_record [OF a b, of "\<lambda>t. True"] c by simp
qed

section \<open>Properties of the log streams\<close>

lemma ok_broadcast: "registry_ok st \<Longrightarrow> registry_ok (broadcastLogMessage p m st)"
  by (simp add: registry_ok_def broadcastLogMessage_def split: option.splits)

lemma ok_connect: "registry_ok st \<Longrightarrow> registry_ok (snd (connect cwd fs p st))"
  by (simp add: registry_ok_def connect_def Let_def)

lemma ok_disconnect: "registry_ok st \<Longrightarrow> registry_ok (disconnect p s st)"
  by (auto simp: registry_ok_def disconnect_def Let_def split: option.splits)

lemma ok_step: "registry_ok st \<Longrightarrow> registry_ok (log_step cwd st ev)"
  by (cases ev) (simp_all add: ok_broadcast ok_connect ok_disconnect)

lemma ok_run: "registry_ok st \<Longrightarrow> registry_ok (foldl (log_step cwd) st evs)"
  by (induction evs arbitrary: st) (simp_all add: ok_step)

text \<open>
  Claim C10. Starting from the empty registry, after any sequence of connections, closed
  connections and broadcasts no plugin name is mapped to an empty set of streams; and a
  broadcast for a plugin name that has no entry leaves the state as it is (the function has
  no way to throw).
\<close>

theorem registry_never_maps_to_empty_set:
  "registry_ok (foldl (log_step cwd) no_streams evs) \<and>
   (activeStreams st p = None \<longrightarrow> broadcastLogMessage p m st = st)"
proof
  have "registry_ok no_streams"
    by (simp add: registry_ok_def no_streams_def)
  then show "registry_ok (foldl (log_step cwd) no_streams evs)"
    by (rule ok_run)
  show "activeStreams st p = None \<longrightarrow> broadcastLogMessage p m st = st"
    by (simp add: broadcastLogMessage_def)
qed

theorem registry_never_maps_to_empty_set_witness:
  "activeStreams
     (foldl (log_step ''/srv'') no_streams
        [Connect demo_fs ''demo'', Connect demo_fs ''demo'', Close ''demo'' 0,
         Publish ''demo'' ''[INFO] Compiling'', Close ''demo'' 1]) ''demo'' = None \<and>
   broadcastLogMessage ''demo'' ''[INFO] Done'' no_streams = no_streams"
proof -
  have gone: "activeStreams
     (foldl (log_step ''/srv'') no_streams
        [Connect demo_fs ''demo'', Connect demo_fs ''demo'', Close ''demo'' 0,
         Publish ''demo'' ''[INFO] Compiling'', Close ''demo'' 1]) ''demo'' = None"
    by (auto simp: no_streams_def connect_def disconnect_def broadcastLogMessage_def
          path_defs demo_fs_def Let_def)
  have none: "activeStreams no_streams ''demo'' = None"
    by (simp add: no_streams_def)
  show ?thesis
    using registry_never_maps_to_empty_set
            [of "''/srv''" "[]" no_streams "''demo''" "''[INFO] Done''"] gone none
    by simp
qed

lemma broadcast_streams: "activeStreams (broadcastLogMessage p m st) = activeStreams st"
  by (simp add: broadcastLogMessage_def split: option.splits)

lemma broadcast_written:
  "activeStreams st p = Some streams \<Longrightarrow>
     written (broadcastLogMessage p m st) s =
       (if s \<in> streams then written st s @ [m] else written st s)"
  by (auto simp: broadcastLogMessage_def)

lemma broadcasts_written:
  "activeStreams st p = Some streams \<Longrightarrow>
     written (foldl (\<lambda>st m. broadcastLogMessage p m st) st ms) s =
       (if s \<in> streams then written st s @ ms else written st s)"
proof (induction ms arbitrary: st)
  case Nil
  then show ?case by simp
next
  case (Cons m ms)
  have "activeStreams (broadcastLogMessage p m st) p = Some streams"
    using Cons.prems by (simp add: broadcast_streams)
  from Cons.IH [OF this] show ?case
    by (simp add: broadcast_written [OF Cons.prems])
qed

lemmas publish_defs = published_earlier_def late_client_def demo_fs_def no_streams_def
  on_output_def announce_def start_attempt_def connect_def existing_logs_def
  broadcastLogMessage_def appendFileSync_def basename_def trim_def is_space_def path_defs
  split_lines_def

text \<open>
  Claim C7, as the claim states it, fails. A chunk of build output and a progress message
  are published while nobody listens, then the second build attempt starts; the client
  that connects next is sent the greeting and the header of the second attempt only. The
  progress message was never stored, and the start of the attempt has overwritten
  \<open>build.log\<close>.
\<close>

theorem earlier_messages_not_replayed:
  "fst late_client = Some 0 \<and>
   written (snd late_client) 0 = [''Connected to log stream'', ''Build attempt 2 started''] \<and>
   ''[INFO] Compiling 3 source files'' \<notin> set (written (snd late_client) 0) \<and>
   ''Build failed. Attempting to fix issues automatically...'' \<notin> set (written (snd late_client) 0)"
  by (simp add: publish_defs)

text \<open>
  Claim C7, amended. A client that connects is sent a greeting and then the lines of the
  project's \<open>build.log\<close> that are not blank, as the file is at that moment and in the
  order of the file; messages that were only broadcast, or that the file no longer holds,
  are not replayed. Every message broadcast for the project afterwards is written once to
  each stream registered for the project, so all of them receive the same messages in the
  same order, and the streams of other projects receive nothing.
\<close>

theorem replay_and_live_delivery:
  "(connect cwd fs p st = (Some s, st') \<longrightarrow>
      written st' s =
        ''Connected to log stream'' # existing_logs fs (path_join (resolve cwd [p]) ''build.log'') \<and>
      (\<exists>streams. activeStreams st' p = Some streams \<and> s \<in> streams)) \<and>
   (file_text fs logPath = Some logText \<and> logPath \<notin> denied fs \<longrightarrow>
      existing_logs fs logPath = filter (\<lambda>line. trim line \<noteq> []) (split_lines logText)) \<and>
   (activeStreams st' p = Some streams \<longrightarrow>
      (\<forall>t. written (foldl (\<lambda>st m. broadcastLogMessage p m st) st' ms) t =
             (if t \<in> streams then written st' t @ ms else written st' t)))"
  by (auto simp: connect_def Let_def existing_logs_def existsSync_def broadcasts_written
           split: if_splits)

theorem replay_and_live_delivery_witness:
  "written (snd late_client) 0 = [''Connected to log stream'', ''Build attempt 2 started''] \<and>
   written (foldl (\<lambda>st m. broadcastLogMessage ''demo'' m st) (snd late_client)
              [''[INFO] Compiling'', ''[INFO] BUILD SUCCESS'']) 0 =
     [''Connected to log stream'', ''Build attempt 2 started'', ''[INFO] Compiling'',
      ''[INFO] BUILD SUCCESS'']"
proof -
  have c: "connect ''/srv'' (fst published_earlier) ''demo'' (snd published_earlier) =
             (Some 0, snd late_client)"
    by (simp add: publish_defs)
  have f: "file_text (fst published_earlier) ''/srv/demo/build.log'' =
             Some (''Build attempt 2 started'' @ [CHR 0x0A]) \<and>
           ''/srv/demo/build.log'' \<notin> denied (fst published_earlier)"
    by (simp add: publish_defs)
  have l: "filter (\<lambda>line. trim line \<noteq> []) (split_lines (''Build attempt 2 started'' @ [CHR 0x0A])) =
             [''Build attempt 2 started'']"
    by (simp add: split_lines_def trim_def is_space_def)
  have j: "path_join (resolve ''/srv'' [''demo'']) ''build.log'' = ''/srv/demo/build.log''"
    by (simp add: path_defs)
  have a: "activeStreams (snd late_client) ''demo'' = Some {0}"
    by (simp add: publish_defs)
  show ?thesis
    using replay_and_live_delivery
            [where cwd = "''/srv''" and fs = "fst published_earlier" and p = "''demo''"
               and st = "snd published_earlier" and s = 0 and st' = "snd late_client"
               and logPath = "''/srv/demo/build.log''"
               and logText = "''Build attempt 2 started'' @ [CHR 0x0A]"
               and streams = "{0}"
               and ms = "[''[INFO] Compiling'', ''[INFO] BUILD SUCCESS'']"] c f l j a
    by simp
qed

section \<open>Properties of the build script\<close>

lemma attempt_numbers_append: "attempt_numbers (xs @ ys) = attempt_numbers xs @ attempt_numbers ys"
  by (induction xs rule: attempt_numbers.induct) simp_all

lemma count_list_append': "count_list (xs @ ys) x = count_list xs x + count_list ys x"
  by (induction xs) simp_all

lemma apply_fixes_trace:
  "apply_fixes sc fails fixed paths evs = (ab, evs') \<Longrightarrow>
     attempt_numbers evs' = attempt_numbers evs \<and> count_list evs' (Build NoShadeBuild) = count_list evs (Build NoShadeBuild)"
proof (induction paths arbitrary: evs)
  case Nil
  then show ?case by simp
next
  case (Cons path paths)
  show ?case
  proof (cases "sc = Part007 \<and> (str_includes path ''..'' \<or> startsWith path ''/'')")
    case True
    with Cons.prems have "apply_fixes sc fails fixed paths (evs @ [Suspicious path]) = (ab, evs')" by simp
    from Cons.IH[OF this] show ?thesis by (simp add: attempt_numbers_append count_list_append')
  next
    case False
    note nf = False
    show ?thesis
    proof (cases "fails path")
      case True
      with nf Cons.prems show ?thesis by auto
    next
      case False
      with nf Cons.prems have "apply_fixes sc fails fixed paths (evs @ [Updated path (entry_text fixed path)]) = (ab, evs')" by auto
      from Cons.IH[OF this] show ?thesis by (simp add: attempt_numbers_append count_list_append')
    qed
  qed
qed

lemma retry_build_trace:
  "attempt_numbers (trace (retry_build a n st)) = attempt_numbers (trace st) \<and>
   count_list (trace (retry_build a n st)) (Build NoShadeBuild) = count_list (trace st) (Build NoShadeBuild)"
  by (simp add: retry_build_def Let_def attempt_numbers_append count_list_append')

lemma fix_iteration_trace:
  assumes "fix_iteration cfg e n st = (ab, st')"
  shows "attempt_numbers (trace st') = attempt_numbers (trace st) @ [n] \<and>
         count_list (trace st') (Build NoShadeBuild) = count_list (trace st) (Build NoShadeBuild)"
proof -
  let ?a = "attempt e n"
  let ?T = "trace st @ [FixAttempt n, Build CompileOnlyBuild]"
  have base: "attempt_numbers ?T = attempt_numbers (trace st) @ [n] \<and> count_list ?T (Build NoShadeBuild) = count_list (trace st) (Build NoShadeBuild)"
    by (simp add: attempt_numbers_append count_list_append')
  have base2: "attempt_numbers (?T @ [FixRequest]) = attempt_numbers (trace st) @ [n] \<and> count_list (?T @ [FixRequest]) (Build NoShadeBuild) = count_list (trace st) (Build NoShadeBuild)"
    by (simp add: attempt_numbers_append count_list_append')
  show ?thesis
  proof (cases "\<exists>fixed. response ?a = Fixes fixed \<and> compile_status ?a = 0 \<and> \<not> (verbose cfg \<and> curl_status ?a \<noteq> 0)")
    case True
    then obtain fixed where f: "response ?a = Fixes fixed" "compile_status ?a = 0"
       "\<not> (verbose cfg \<and> curl_status ?a \<noteq> 0)" by blast
    obtain ab2 evs where ap: "apply_fixes BashSh (write_fails e) fixed (file_paths fixed) (?T @ [FixRequest]) = (ab2, evs)"
      by (cases "apply_fixes BashSh (write_fails e) fixed (file_paths fixed) (?T @ [FixRequest])")
    from apply_fixes_trace[OF ap] base2 have evs: "attempt_numbers evs = attempt_numbers (trace st) @ [n] \<and> count_list evs (Build NoShadeBuild) = count_list (trace st) (Build NoShadeBuild)" by simp
    show ?thesis
    proof (cases ab2)
      case None
      with assms f ap have "st' = retry_build ?a n (st\<lparr>build_errors := compile_output ?a, trace := evs\<rparr>)"
        by (auto simp: fix_iteration_def Let_def)
      then show ?thesis using evs retry_build_trace by simp
    next
      case (Some status)
      with assms f ap have "trace st' = evs"
        by (auto simp: fix_iteration_def Let_def)
      then show ?thesis using evs by simp
    qed
  next
    case False
    with assms have "trace st' = ?T \<or> trace st' = ?T @ [FixRequest]"
      by (auto simp: fix_iteration_def Let_def split: if_splits api_response.splits prod.splits option.splits)
    then show ?thesis using base base2 by auto
  qed
qed

lemma fix_loop_trace:
  "fix_loop cfg e n st = (ab, n', st') \<Longrightarrow>
     attempt_numbers (trace st') = attempt_numbers (trace st) @ [Suc n..<Suc n'] \<and>
     count_list (trace st') (Build NoShadeBuild) = count_list (trace st) (Build NoShadeBuild) \<and>
     n \<le> n' \<and> int n' \<le> max (int n) (max_attempts cfg) \<and>
     (ab = None \<and> \<not> build_success st' \<longrightarrow> \<not> int n' < max_attempts cfg)"
proof (induction cfg e n st arbitrary: ab n' st' rule: fix_loop.induct)
  case (1 cfg e n st)
  show ?case
  proof (cases "int n < max_attempts cfg \<and> \<not> build_success st")
    case False
    with "1.prems" have "ab = None" "n' = n" "st' = st"
      by (auto simp: fix_loop.simps[of cfg e n st])
    with False show ?thesis by auto
  next
    case True
    obtain ab1 st1 where it: "fix_iteration cfg e (Suc n) st = (ab1, st1)"
      by (cases "fix_iteration cfg e (Suc n) st")
    note tr = fix_iteration_trace[OF it]
    show ?thesis
    proof (cases ab1)
      case (Some status)
      with True it "1.prems" have "ab = Some status" "n' = Suc n" "st' = st1"
        by (auto simp: fix_loop.simps[of cfg e n st])
      with tr True show ?thesis by auto
    next
      case None
      with True it "1.prems" have rec: "fix_loop cfg e (Suc n) st1 = (ab, n', st')"
        by (auto simp: fix_loop.simps[of cfg e n st])
      from "1.IH"[OF True it[unfolded None, symmetric] refl rec]
      have ih: "attempt_numbers (trace st') = attempt_numbers (trace st1) @ [Suc (Suc n)..<Suc n']"
           "count_list (trace st') (Build NoShadeBuild) = count_list (trace st1) (Build NoShadeBuild)" "Suc n \<le> n'"
           "int n' \<le> max (int (Suc n)) (max_attempts cfg)"
           "ab = None \<and> \<not> build_success st' \<longrightarrow> \<not> int n' < max_attempts cfg" by auto
      have "[Suc n..<Suc n'] = Suc n # [Suc (Suc n)..<Suc n']"
        using ih(3) by (simp add: upt_conv_Cons)
      with ih tr True show ?thesis by auto
    qed
  qed
qed

lemma fallback_events:
  "events (fallback e n st) = trace st @ [Build NoShadeBuild] \<and>
   \<not> success_flag (fallback e n st) \<and> attempts_made (fallback e n st) = n"
  by (simp add: fallback_def Let_def)

lemma start_trace:
  "attempt_numbers (trace start_state) = [] \<and>
   count_list (trace start_state) (Build NoShadeBuild) = 0"
  by (simp add: start_state_def)

text \<open>
  What holds in every run: the script starts at most \<open>MAX_AI_FIX_ATTEMPTS\<close> fix
  attempts and runs the build without shading at most once. When the first build has
  failed and the loop has come to its end with \<open>BUILD_SUCCESS\<close> still false (so the
  script was not ended inside the loop by \<open>set -e\<close>), the attempts made are exactly those
  numbered 1 to \<open>MAX_AI_FIX_ATTEMPTS\<close>, and the run then makes exactly one build
  without shading, as the last build it makes.
\<close>

lemma bounded_attempts_then_single_fallback:
  "int (length (attempt_numbers (events (run_script cfg e)))) \<le> max 0 (max_attempts cfg) \<and>
   count_list (events (run_script cfg e)) (Build NoShadeBuild) \<le> 1 \<and>
   (\<not> first_build_ok e \<and> \<not> ended_by_errexit (run_script cfg e) \<and>
    \<not> success_flag (run_script cfg e) \<longrightarrow>
      attempt_numbers (events (run_script cfg e)) = [1..<Suc (nat (max_attempts cfg))] \<and>
      (\<exists>earlier. events (run_script cfg e) = earlier @ [Build NoShadeBuild] \<and>
                 count_list earlier (Build NoShadeBuild) = 0))"
proof (cases "first_build_ok e")
  case True
  then show ?thesis by (simp add: run_script_def)
next
  case False
  obtain ab n st where lp: "fix_loop cfg e 0 start_state = (ab, n, st)"
    by (cases "fix_loop cfg e 0 start_state") auto
  from fix_loop_trace[OF lp] start_trace
  have tr: "attempt_numbers (trace st) = [1..<Suc n]" "count_list (trace st) (Build NoShadeBuild) = 0"
    "int n \<le> max 0 (max_attempts cfg)"
    "ab = None \<and> \<not> build_success st \<longrightarrow> \<not> int n < max_attempts cfg" by auto
  have "length (attempt_numbers (trace st)) = n"
    unfolding tr(1) by (simp del: upt_Suc)
  with tr(3) have len: "int (length (attempt_numbers (trace st))) \<le> max 0 (max_attempts cfg)"
    by simp
  show ?thesis
  proof (cases ab)
    case (Some status)
    with False lp len tr(2) show ?thesis by (simp add: run_script_def)
  next
    case None
    show ?thesis
    proof (cases "build_success st")
      case True
      with None False lp len tr(2) show ?thesis by (simp add: run_script_def)
    next
      case nb: False
      from tr(3,4) None nb have n: "n = nat (max_attempts cfg)" by auto
      have out: "run_script cfg e = fallback e n st"
        using None False lp nb by (simp add: run_script_def)
      have an: "attempt_numbers (trace st @ [Build NoShadeBuild]) = [1..<Suc (nat (max_attempts cfg))]"
        using tr(1) n by (simp add: attempt_numbers_append del: upt_Suc)
      have ln: "int (length (attempt_numbers (trace st @ [Build NoShadeBuild]))) \<le> max 0 (max_attempts cfg)"
        using len by (simp add: attempt_numbers_append)
      have ns: "count_list (trace st @ [Build NoShadeBuild]) (Build NoShadeBuild) = 1"
        using tr(2) by (simp add: count_list_append')
      show ?thesis unfolding out using fallback_events[of e n st] an ln ns tr(2)
        by (simp del: upt_Suc)
    qed
  qed
qed

text \<open>
  The exit status tells nothing about the build once the first build has failed: a run
  that \<open>set -e\<close> does not end goes on to the last command of the script, or leaves with
  \<open>exit 1\<close>, and in both cases the status is 1, also when a build has succeeded after
  fixes or without shading.
\<close>

lemma exit_status_after_first_failure:
  assumes "\<not> first_build_ok e" and "\<not> ended_by_errexit (run_script cfg e)"
  shows "exit_status (run_script cfg e) = 1"
proof -
  obtain ab n st where lp: "fix_loop cfg e 0 start_state = (ab, n, st)"
    by (cases "fix_loop cfg e 0 start_state") auto
  show ?thesis
  proof (cases ab)
    case (Some status)
    with assms lp show ?thesis by (simp add: run_script_def)
  next
    case None
    with assms lp show ?thesis
      by (auto simp: run_script_def fallback_def Let_def exit_trap_def split: if_splits)
  qed
qed

lemmas run_defs = run_script_def fix_loop.simps fix_iteration_def fallback_def start_state_def
  shade_failure_env_def refused_attempt_def default_config_def retry_build_def exit_trap_def

lemma shade_failure_events:
  "events (run_script default_config shade_failure_env) =
     [Build NormalBuild,
      FixAttempt 1, Build CompileOnlyBuild, FixRequest,
      FixAttempt 2, Build CompileOnlyBuild, FixRequest,
      FixAttempt 3, Build CompileOnlyBuild, FixRequest,
      FixAttempt 4, Build CompileOnlyBuild, FixRequest,
      FixAttempt 5, Build CompileOnlyBuild, FixRequest,
      Build NoShadeBuild]"
  by (simp add: run_defs)

text \<open>
  Claim C1 at a failing input. The project has a compile error and the script is run with
  \<open>--max-attempts 1\<close>. The first build fails; the only fix attempt starts and
  \<open>BUILD_ERRORS=$(build_plugin "compile-only")\<close> returns the status 1 of Maven, so
  \<open>set -e\<close> ends the script there: the budget is used up, no build has succeeded, and
  the run is over without a build without shading and without a \<open>build_result.json\<close>.
  The same happens with the default budget when the compilation fails in the fifth
  attempt (here after a patch that does not compile).
\<close>

theorem errexit_ends_run_before_fallback:
  "\<not> first_build_ok compile_error_env \<and>
   compile_status (attempt compile_error_env 1) = 1 \<and>
   events (run_script single_attempt_config compile_error_env) =
     [Build NormalBuild, FixAttempt 1, Build CompileOnlyBuild] \<and>
   attempts_made (run_script single_attempt_config compile_error_env) = 1 \<and>
   ended_by_errexit (run_script single_attempt_config compile_error_env) \<and>
   exit_status (run_script single_attempt_config compile_error_env) = 1 \<and>
   build_result_json (run_script single_attempt_config compile_error_env) = None \<and>
   count_list (events (run_script single_attempt_config compile_error_env))
     (Build NoShadeBuild) = 0 \<and>
   events (run_script default_config late_compile_error_env) =
     [Build NormalBuild,
      FixAttempt 1, Build CompileOnlyBuild, FixRequest,
      FixAttempt 2, Build CompileOnlyBuild, FixRequest,
      FixAttempt 3, Build CompileOnlyBuild, FixRequest,
      FixAttempt 4, Build CompileOnlyBuild, FixRequest,
      Updated ''src/main/java/Foo.java'' (''class Foo {'' @ [CHR 0x0A]), Build NormalBuild,
      FixAttempt 5, Build CompileOnlyBuild] \<and>
   attempts_made (run_script default_config late_compile_error_env) = 5 \<and>
   ended_by_errexit (run_script default_config late_compile_error_env) \<and>
   build_result_json (run_script default_config late_compile_error_env) = None"
  by (simp add: run_defs compile_error_env_def compile_error_attempt_def
        single_attempt_config_def late_compile_error_env_def breaking_attempt_def
        file_paths_def entry_text_def is_ifs_def)

text \<open>
  An attempt with a fixed build that the script gets through sets \<open>BUILD_SUCCESS\<close>; any
  other attempt leaves it, and \<open>build_result.json\<close>, as they were. An unproductive
  attempt has no fixed build.
\<close>

lemma unproductive_not_fixed: "unproductive a \<Longrightarrow> \<not> fixed_build a"
  by (auto simp: unproductive_def fixed_build_def)

lemma fixed_iteration:
  assumes "fixed_build (attempt e n)" and "fix_iteration cfg e n st = (None, st')"
  shows "build_success st'"
proof -
  from assms(1) obtain fixed where f: "response (attempt e n) = Fixes fixed"
      "rebuild_ok (attempt e n)" "jar_file (attempt e n) \<noteq> []" "verify_ok (attempt e n)"
    by (auto simp: fixed_build_def split: api_response.splits)
  with assms(2) show ?thesis
    by (auto simp: fix_iteration_def Let_def retry_build_def split: if_splits prod.splits option.splits)
qed

lemma unfixed_iteration:
  assumes "\<not> fixed_build (attempt e n)" and "fix_iteration cfg e n st = (None, st')"
  shows "build_success st' = build_success st \<and> result_file st' = result_file st"
proof (cases "response (attempt e n)")
  case NoBody
  with assms(2) show ?thesis
    by (auto simp: fix_iteration_def Let_def split: if_splits)
next
  case NotJson
  with assms(2) show ?thesis
    by (auto simp: fix_iteration_def Let_def split: if_splits)
next
  case NotSuccess
  with assms(2) show ?thesis
    by (auto simp: fix_iteration_def Let_def split: if_splits)
next
  case (Fixes fixed)
  with assms(1) have "\<not> (rebuild_ok (attempt e n) \<and> jar_file (attempt e n) \<noteq> [] \<and> verify_ok (attempt e n))"
    by (simp add: fixed_build_def)
  with Fixes assms(2) show ?thesis
    by (auto simp: fix_iteration_def Let_def retry_build_def split: if_splits prod.splits option.splits)
qed

lemma unfixed_loop:
  "fix_loop cfg e n st = (None, n', st') \<Longrightarrow>
   (\<forall>k. n < k \<and> int k \<le> max_attempts cfg \<longrightarrow> \<not> fixed_build (attempt e k)) \<Longrightarrow>
   build_success st' = build_success st \<and> result_file st' = result_file st"
proof (induction cfg e n st arbitrary: n' st' rule: fix_loop.induct)
  case (1 cfg e n st)
  show ?case
  proof (cases "int n < max_attempts cfg \<and> \<not> build_success st")
    case False
    with "1.prems"(1) have "st' = st"
      by (auto simp: fix_loop.simps[of cfg e n st])
    then show ?thesis by simp
  next
    case True
    obtain ab1 st1 where it: "fix_iteration cfg e (Suc n) st = (ab1, st1)"
      by (cases "fix_iteration cfg e (Suc n) st")
    show ?thesis
    proof (cases ab1)
      case (Some status)
      with True it "1.prems"(1) show ?thesis
        by (auto simp: fix_loop.simps[of cfg e n st])
    next
      case None
      with True it "1.prems"(1) have rec: "fix_loop cfg e (Suc n) st1 = (None, n', st')"
        by (auto simp: fix_loop.simps[of cfg e n st])
      have u: "\<not> fixed_build (attempt e (Suc n))"
        using "1.prems"(2) True by auto
      have rest: "\<forall>k. Suc n < k \<and> int k \<le> max_attempts cfg \<longrightarrow> \<not> fixed_build (attempt e k)"
        using "1.prems"(2) by auto
      from "1.IH"[OF True it[unfolded None, symmetric] refl rec rest]
        unfixed_iteration[OF u it[unfolded None]]
      show ?thesis by simp
    qed
  qed
qed

text \<open>
  No attempt that the loop has left behind, the last one apart, had a fixed build: after
  such an attempt the loop would have stopped.
\<close>

lemma earlier_attempts_not_fixed:
  "fix_loop cfg e n st = (ab, n', st') \<Longrightarrow> n < j \<Longrightarrow> j < n' \<Longrightarrow> \<not> fixed_build (attempt e j)"
proof (induction cfg e n st arbitrary: ab n' st' rule: fix_loop.induct)
  case (1 cfg e n st)
  show ?case
  proof (cases "int n < max_attempts cfg \<and> \<not> build_success st")
    case False
    with "1.prems"(1) have "n' = n"
      by (auto simp: fix_loop.simps[of cfg e n st])
    with "1.prems"(2,3) show ?thesis by simp
  next
    case True
    obtain ab1 st1 where it: "fix_iteration cfg e (Suc n) st = (ab1, st1)"
      by (cases "fix_iteration cfg e (Suc n) st")
    show ?thesis
    proof (cases ab1)
      case (Some status)
      with True it "1.prems"(1) have "n' = Suc n"
        by (auto simp: fix_loop.simps[of cfg e n st])
      with "1.prems"(2,3) show ?thesis by simp
    next
      case None
      with True it "1.prems"(1) have rec: "fix_loop cfg e (Suc n) st1 = (ab, n', st')"
        by (auto simp: fix_loop.simps[of cfg e n st])
      show ?thesis
      proof (cases "j = Suc n")
        case False
        with "1.prems"(2) have "Suc n < j" by simp
        from "1.IH"[OF True it[unfolded None, symmetric] refl rec this "1.prems"(3)]
        show ?thesis .
      next
        case j: True
        show ?thesis
        proof
          assume "fixed_build (attempt e j)"
          with j have "fixed_build (attempt e (Suc n))" by simp
          from fixed_iteration[OF this it[unfolded None]]
          have "build_success st1" .
          with rec have "n' = Suc n"
            by (simp add: fix_loop.simps[of cfg e "Suc n" st1])
          with j "1.prems"(3) show False by simp
        qed
      qed
    qed
  qed
qed

text \<open>
  Claim C2, as the claim states it, fails in its last part. The first build of
  \<open>shade_failure_env\<close> fails, the fix service answers each of the five attempts with a
  response that is not a success, and the script is not ended by \<open>set -e\<close>; after the
  fifth attempt the build without shading succeeds and the run ends with a
  \<open>build_result.json\<close>, the result that the status route and the download route serve,
  that says \<open>success: true\<close> and \<open>noShade: true\<close>. The exit status is 1, as after every
  run that comes to the last command of the script.
\<close>

theorem unproductive_run_can_succeed_by_fallback:
  "\<not> first_build_ok shade_failure_env \<and>
   response (attempt shade_failure_env 1) = NotSuccess \<and>
   response (attempt shade_failure_env 2) = NotSuccess \<and>
   response (attempt shade_failure_env 3) = NotSuccess \<and>
   response (attempt shade_failure_env 4) = NotSuccess \<and>
   response (attempt shade_failure_env 5) = NotSuccess \<and>
   \<not> ended_by_errexit (run_script default_config shade_failure_env) \<and>
   attempts_made (run_script default_config shade_failure_env) = 5 \<and>
   build_result_json (run_script default_config shade_failure_env) =
     Some (BuiltNoShade ''target/demo-1.0.jar'') \<and>
   result_success (BuiltNoShade ''target/demo-1.0.jar'') \<and>
   exit_status (run_script default_config shade_failure_env) = 1"
  by (simp add: run_defs)

text \<open>
  Claim C2, amended. Take a run of \<open>bash.sh\<close> in which the first build fails, the fix
  attempt numbered \<open>k\<close> is started, every attempt from \<open>k\<close> to \<open>MAX_AI_FIX_ATTEMPTS\<close> is
  unproductive (no body, a response that is not a success, or a success without files,
  after which the Maven build that the script still runs gives no verified JAR file), and
  the script is not ended by \<open>set -e\<close> before its last command.
  Then each attempt uses up one unit of the budget, the loop ends after exactly
  \<open>MAX_AI_FIX_ATTEMPTS\<close> attempts, the build without shading is run once, as the last
  build, and the result written to \<open>build_result.json\<close> is a failure unless that build
  succeeds and its JAR file is found and verified, in which case the result is a success
  marked \<open>noShade\<close>. The exit status of the script is 1 in both cases.
\<close>

theorem unproductive_run_exhausts_budget:
  assumes "\<not> first_build_ok e"
      and "k \<in> set (attempt_numbers (events (run_script cfg e)))"
      and "\<forall>n \<in> {k..nat (max_attempts cfg)}. unproductive (attempt e n)"
      and "\<not> ended_by_errexit (run_script cfg e)"
  shows "attempt_numbers (events (run_script cfg e)) = [1..<Suc (nat (max_attempts cfg))] \<and>
         attempts_made (run_script cfg e) = nat (max_attempts cfg) \<and>
         count_list (events (run_script cfg e)) (Build NoShadeBuild) = 1 \<and>
         last (events (run_script cfg e)) = Build NoShadeBuild \<and>
         (\<exists>r. build_result_json (run_script cfg e) = Some r \<and>
              (result_success r \<longleftrightarrow> fallback_ok e \<and> fallback_jar e \<noteq> [] \<and> fallback_verify e) \<and>
              (result_success r \<longrightarrow> r = BuiltNoShade (fallback_jar e))) \<and>
         exit_status (run_script cfg e) = 1"
proof -
  obtain ab n st where lp: "fix_loop cfg e 0 start_state = (ab, n, st)"
    by (cases "fix_loop cfg e 0 start_state") auto
  have ab: "ab = None"
  proof (cases ab)
    case None
    then show ?thesis .
  next
    case (Some status)
    with assms(1) lp have "ended_by_errexit (run_script cfg e)"
      by (simp add: run_script_def)
    with assms(4) show ?thesis by simp
  qed
  from fix_loop_trace [OF lp] start_trace
  have tr: "attempt_numbers (trace st) = [1..<Suc n]"
    "count_list (trace st) (Build NoShadeBuild) = 0"
    "int n \<le> max 0 (max_attempts cfg)"
    by auto
  have ev: "attempt_numbers (events (run_script cfg e)) = attempt_numbers (trace st)"
    using assms(1) lp ab fallback_events [of e n st]
    by (simp add: run_script_def attempt_numbers_append)
  from assms(2) have k: "0 < k" "k \<le> n"
    unfolding ev tr(1) by auto
  have all: "\<forall>j. 0 < j \<and> int j \<le> max_attempts cfg \<longrightarrow> \<not> fixed_build (attempt e j)"
  proof (intro allI impI)
    fix j
    assume j: "0 < j \<and> int j \<le> max_attempts cfg"
    show "\<not> fixed_build (attempt e j)"
    proof (cases "j < k")
      case True
      with k(2) j earlier_attempts_not_fixed [OF lp, of j] show ?thesis by simp
    next
      case False
      with j have "j \<in> {k..nat (max_attempts cfg)}" by auto
      with assms(3) unproductive_not_fixed show ?thesis by blast
    qed
  qed
  from unfixed_loop [OF lp [unfolded ab] all]
  have still: "\<not> build_success st" "result_file st = None"
    by (simp_all add: start_state_def)
  from fix_loop_trace [OF lp] ab still(1)
  have "\<not> int n < max_attempts cfg" by auto
  with tr(3) have n: "n = nat (max_attempts cfg)" by auto
  have out: "run_script cfg e = fallback e n st"
    using assms(1) lp ab still(1) by (simp add: run_script_def)
  have an: "attempt_numbers (trace st @ [Build NoShadeBuild]) = [1..<Suc (nat (max_attempts cfg))]"
    using tr(1) n by (simp add: attempt_numbers_append del: upt_Suc)
  have ns: "count_list (trace st @ [Build NoShadeBuild]) (Build NoShadeBuild) = 1"
    using tr(2) by (simp add: count_list_append')
  from assms(4) have found: "fallback_ok e \<longrightarrow> fallback_find_status e = 0"
    unfolding out by (auto simp: fallback_def Let_def split: if_splits)
  have res: "\<exists>r. build_result_json (fallback e n st) = Some r \<and>
              (result_success r \<longleftrightarrow> fallback_ok e \<and> fallback_jar e \<noteq> [] \<and> fallback_verify e) \<and>
              (result_success r \<longrightarrow> r = BuiltNoShade (fallback_jar e))"
    using found by (simp add: fallback_def Let_def)
  have ex: "exit_status (fallback e n st) = 1"
    using found by (simp add: fallback_def Let_def exit_trap_def)
  show ?thesis
    unfolding out using fallback_events [of e n st] an ns n res ex
    by (simp del: upt_Suc)
qed

theorem unproductive_run_exhausts_budget_witness:
  "attempt_numbers (events (run_script default_config patched_once_env)) = [1, 2, 3, 4, 5] \<and>
   attempts_made (run_script default_config patched_once_env) = 5 \<and>
   build_result_json (run_script default_config patched_once_env) =
     Some (BuiltNoShade ''target/demo-1.0.jar'') \<and>
   exit_status (run_script default_config patched_once_env) = 1"
proof -
  have ev: "events (run_script default_config patched_once_env) =
     [Build NormalBuild,
      FixAttempt 1, Build CompileOnlyBuild, FixRequest,
      Updated ''src/main/java/Foo.java'' (''class Foo {'' @ [CHR 0x0A]), Build NormalBuild,
      FixAttempt 2, Build CompileOnlyBuild, FixRequest,
      FixAttempt 3, Build CompileOnlyBuild, FixRequest,
      FixAttempt 4, Build CompileOnlyBuild, FixRequest,
      FixAttempt 5, Build CompileOnlyBuild, FixRequest,
      Build NoShadeBuild]"
    by (simp add: run_defs patched_once_env_def breaking_attempt_def
          file_paths_def entry_text_def is_ifs_def)
  have a: "\<not> first_build_ok patched_once_env"
    by (simp add: patched_once_env_def shade_failure_env_def)
  have b: "2 \<in> set (attempt_numbers (events (run_script default_config patched_once_env)))"
    unfolding ev by simp
  have c: "\<forall>n \<in> {2..nat (max_attempts default_config)}.
             unproductive (attempt patched_once_env n)"
    by (simp add: unproductive_def patched_once_env_def shade_failure_env_def
          refused_attempt_def)
  have d: "\<not> ended_by_errexit (run_script default_config patched_once_env)"
    by (simp add: run_defs patched_once_env_def breaking_attempt_def
          file_paths_def entry_text_def is_ifs_def)
  have m: "nat (max_attempts default_config) = 5"
    by (simp add: default_config_def)
  have r: "build_result_json (run_script default_config patched_once_env) =
     Some (BuiltNoShade ''target/demo-1.0.jar'')"
    by (simp add: run_defs patched_once_env_def breaking_attempt_def
          file_paths_def entry_text_def is_ifs_def)
  from unproductive_run_exhausts_budget [OF a b c d] m r
  show ?thesis unfolding ev by simp
qed

end
